theory Spec2Isabelle
  imports Main "HOL-Library.Word"
begin

unbundle bit_operations_syntax

section \<open>The SDK boundary\<close>

text \<open>
  The four demo programs (\<open>test_base\<close>, \<open>test_single_opencv\<close>, \<open>test_live_opencv\<close>,
  \<open>base_test\<close>) are sequences of calls into the camera SDK. A run is modelled by the
  list of events it produces, in order, together with the way the process ends.
  What the SDK, the keyboard and the clock answer is the input of the model.
\<close>

type_synonym u8 = "8 word"
type_synonym u32 = "32 word"
type_synonym u64 = "64 word"

text \<open>
  \<open>qhyccd.h\<close> is not part of the sources, so the values of its macros are parameters
  of every program.
\<close>

record sdk_consts =
  QHYCCD_SUCCESS :: u32
  QHYCCD_ERROR :: u32
  LIVE_MODE :: nat
  SINGLE_MODE :: nat

datatype control =
    CONTROL_EXPOSURE | CONTROL_COOLER | CONTROL_CURTEMP | CONTROL_CURPWM
  | CONTROL_TRANSFERBIT | CAM_LIVEVIDEOMODE

text \<open>
  One constructor per SDK function the programs call, with the arguments other than the
  handle and the out-pointers. The double passed to \<open>SetQHYCCDParam\<close> is left out.
\<close>

datatype sdk_call =
    GetQHYCCDSDKVersion
  | InitQHYCCDResource
  | EnableQHYCCDMessage bool
  | ScanQHYCCD
  | GetQHYCCDId int
  | OpenQHYCCD
  | GetQHYCCDFWVersion
  | SetQHYCCDReadMode nat
  | SetQHYCCDStreamMode nat
  | InitQHYCCD
  | IsQHYCCDControlAvailable control
  | SetQHYCCDBitsMode nat
  | GetQHYCCDChipInfo
  | SetQHYCCDResolution u32 u32 u32 u32
  | GetQHYCCDMemLength
  | SetQHYCCDParam control
  | GetQHYCCDParam control
  | BeginQHYCCDLive
  | GetQHYCCDLiveFrame
  | ExpQHYCCDSingleFrame
  | GetQHYCCDSingleFrame
  | StopQHYCCDLive
  | CloseQHYCCD
  | ReleaseQHYCCDResource

text \<open>
  What a call hands back: a return code, the camera count of \<open>ScanQHYCCD\<close>, the byte
  count of \<open>GetQHYCCDMemLength\<close>, the handle of \<open>OpenQHYCCD\<close> (0 is \<open>NULL\<close>), the
  double of \<open>GetQHYCCDParam\<close> (its value is not modelled), or nothing the programs
  ever look at (\<open>EnableQHYCCDMessage\<close>).
\<close>

datatype retval = Code u32 | Count u32 | Len u32 | Handle nat | Dbl | Void

text \<open>
  \<open>Print\<close> is a line written to stdout or stderr, named by its format string (the
  interpolated values are not kept); \<open>PrintVersion\<close> is the firmware version line with
  its three \<open>%d\<close> values. \<open>Malloc\<close> and \<open>Memset\<close> carry the \<open>size_t\<close> they
  are given. \<open>ShowFrame\<close> is the frame buffer wrapped in a \<open>cv::Mat\<close> and handed to
  \<open>cv::imshow\<close>. \<open>Input\<close> is the value of \<open>input\<close> after \<open>std::cin >> input\<close>.
\<close>

datatype event =
    Call sdk_call retval
  | Print string
  | PrintVersion "int \<times> int \<times> int"
  | Malloc u64
  | Memset u64
  | ShowFrame
  | Input char
  | GetChar

text \<open>
  How the process ends: \<open>main\<close> returns a status, or the process is killed by the
  segmentation fault of \<open>memset\<close> on a null pointer.
\<close>

datatype status = Exit int | Killed

text \<open>
  The answers of the outside world during one run. \<open>ret c k\<close> is the return code of
  SDK function \<open>c\<close>; \<open>k\<close> tells apart the uses of one function with the same
  arguments (the loop iteration, or the position among the call sites). \<open>input n\<close> is
  the value of the variable \<open>input\<close> after the \<open>n\<close>-th \<open>std::cin >> input\<close>,
  \<open>YMDS\<close> and \<open>fwv\<close> are the arrays the SDK fills, and
  \<open>clock_5s n\<close> says whether five seconds have passed (\<open>t_end - t_start >= 5\<close>) when
  iteration \<open>n\<close> of an acquisition loop looks at the clock.
\<close>

record sdk =
  ret :: "sdk_call \<Rightarrow> nat \<Rightarrow> u32"
  YMDS :: "nat \<Rightarrow> u32"
  scan_num :: u32
  handle :: nat
  fwv :: "u8 list"
  chip_w :: u32
  chip_h :: u32
  mem_length :: u32
  input :: "nat \<Rightarrow> char"
  clock_5s :: "nat \<Rightarrow> bool"

section \<open>Firmware version decoding\<close>

text \<open>
  \<open>test_base/main.cpp\<close>, lines 40 to 43. The bytes are promoted to \<open>int\<close>, the
  results are stored in a \<open>uint8_t\<close> array and printed with \<open>%d\<close>.
\<close>

definition test_base_fwv_version :: "u8 list \<Rightarrow> int \<times> int \<times> int" where
  "test_base_fwv_version f =
     (let b0 = (ucast (f ! 0) :: u32);
          v0 = (ucast (if sint (drop_bit 4 b0) \<le> 9 then drop_bit 4 b0 + 0x10
                       else drop_bit 4 b0) :: u8);
          v1 = (ucast (b0 AND NOT 0xf0) :: u8);
          v2 = f ! 1
      in (uint v0, uint v1, uint v2))"

text \<open>
  \<open>base_test/main.cpp\<close>, \<open>FirmWareVersion\<close>, lines 103 to 129: the three \<open>int\<close>
  arguments of the \<open>sprintf\<close> in the branch taken.
\<close>

definition FirmWareVersion_args :: "u8 list \<Rightarrow> int \<times> int \<times> int" where
  "FirmWareVersion_args f =
     (let b0 = (ucast (f ! 0) :: u32); b1 = (ucast (f ! 1) :: u32)
      in if sint (drop_bit 4 b0) \<le> 9
         then (sint (drop_bit 4 b0 + 0x10), sint (b0 AND NOT 0xf0), sint b1)
         else (sint (drop_bit 4 b0), sint (b0 AND NOT 0xf0), sint b1))"


section \<open>The programs\<close>

text \<open>An SDK call whose result is a return code, with the code the SDK answers.\<close>

abbreviation rc :: "sdk \<Rightarrow> sdk_call \<Rightarrow> nat \<Rightarrow> event" where
  "rc e c k \<equiv> Call c (Code (ret e c k))"

text \<open>
  \<open>malloc(length)\<close> and \<open>memset(ImgData,0,length)\<close> take a \<open>size_t\<close>: the
  \<open>int\<close> variable \<open>length\<close> is sign-extended to 64 bits.
\<close>

definition alloc_buffer :: "u32 \<Rightarrow> event list" where
  "alloc_buffer len = [Malloc (scast len), Memset (scast len)]"

text \<open>
  When \<open>length\<close> is negative the size is at least \<open>2^64 - 2^31\<close>: \<open>malloc\<close> cannot
  serve it and returns \<open>NULL\<close>, and \<open>memset(NULL,0,size)\<close> kills the process. The
  three small programs do not look at \<open>length\<close> before they allocate. An allocation
  of a size that is not negative is taken to succeed.
\<close>

definition memset_faults :: "u32 \<Rightarrow> bool" where
  "memset_faults len = (sint len < 0)"

text \<open>
  The body of \<open>if(ret == QHYCCD_SUCCESS)\<close> in the two display loops: the frame
  counter is printed, the buffer is shown, and every five seconds the frame rate is
  reported.
\<close>

definition show_frame :: "sdk \<Rightarrow> nat \<Rightarrow> event list" where
  "show_frame e n =
     [Print ''iCnt = %d'', ShowFrame] @
     (if clock_5s e n then [Print ''|QHYCCD|LIVE_DEMO|fps = %d''] else [])"

subsection \<open>\<open>test_base/main.cpp\<close>\<close>

definition test_base :: "sdk_consts \<Rightarrow> sdk \<Rightarrow> event list \<times> status" where
  "test_base K e =
     (let t1 = [rc e GetQHYCCDSDKVersion 0,
                Print ''SDK Version: %d.%d.%d_%d'',
                rc e InitQHYCCDResource 0,
                Call (EnableQHYCCDMessage True) Void,
                Call ScanQHYCCD (Count (scan_num e)),
                Print ''Found %d cameras'']
      in if scan_num e = 0 then (t1 @ [Print ''No camera found''], Exit 1)
         else
           let t2 = t1 @
                [rc e (GetQHYCCDId 0) 0,
                 Print ''connected to the first camera from the list,id is %s'',
                 Call OpenQHYCCD (Handle (handle e)),
                 rc e GetQHYCCDFWVersion 0,
                 PrintVersion (test_base_fwv_version (fwv e)),
                 rc e (SetQHYCCDReadMode 0) 0,
                 rc e (SetQHYCCDStreamMode (LIVE_MODE K)) 0,
                 rc e InitQHYCCD 0,
                 rc e (SetQHYCCDBitsMode 8) 0,
                 rc e GetQHYCCDChipInfo 0,
                 Print ''CCD/CMOS chip information:'',
                 Print ''Chip width %3f mm,Chip height %3f mm'',
                 Print ''Chip pixel width %3f um,Chip pixel height %3f um'',
                 Print ''Chip Max Resolution is %d x %d,depth is %d'',
                 rc e (SetQHYCCDResolution 0 0 (chip_w e) (chip_h e)) 0]
           in if ret e (SetQHYCCDResolution 0 0 (chip_w e) (chip_h e)) 0 = QHYCCD_SUCCESS K
              then
                let t3 = t2 @ [Print ''SetQHYCCDResolution success!'',
                               Call GetQHYCCDMemLength (Len (mem_length e))] @
                              alloc_buffer (mem_length e)
                in if memset_faults (mem_length e) then (t3, Killed)
                   else (t3 @ [rc e CloseQHYCCD 0, rc e ReleaseQHYCCDResource 0], Exit 0)
              else (t2 @ [Print ''SetQHYCCDResolution fail''], Exit 1))"

subsection \<open>\<open>test_single_opencv/main.cpp\<close> and \<open>test_live_opencv/main.cpp\<close>\<close>

text \<open>
  Both programs start alike, up to the exposure setting (lines 20 to 69 of
  \<open>test_single_opencv\<close>, lines 18 to 81 of \<open>test_live_opencv\<close>); they differ in the
  stream mode. The result is the events so far and, when the process has ended, how
  it ended.
\<close>

definition opencv_init :: "sdk_consts \<Rightarrow> sdk \<Rightarrow> nat \<Rightarrow> event list \<times> status option" where
  "opencv_init K e mode =
     (let t1 = [rc e InitQHYCCDResource 0,
                Call (EnableQHYCCDMessage True) Void,
                Call ScanQHYCCD (Count (scan_num e)),
                Print ''Found %d cameras'']
      in if scan_num e = 0 then (t1 @ [Print ''No camera found''], Some (Exit 1))
         else
           let t2 = t1 @
                [rc e (GetQHYCCDId 0) 0,
                 Print ''connected to the first camera from the list,id is %s'',
                 Call OpenQHYCCD (Handle (handle e)),
                 rc e (SetQHYCCDReadMode 0) 0,
                 rc e (SetQHYCCDStreamMode mode) 0,
                 rc e InitQHYCCD 0,
                 rc e (SetQHYCCDBitsMode 8) 0,
                 rc e GetQHYCCDChipInfo 0,
                 Print ''CCD/CMOS chip information:'',
                 Print ''Chip width %3f mm,Chip height %3f mm'',
                 Print ''Chip pixel width %3f um,Chip pixel height %3f um'',
                 Print ''Chip Max Resolution is %d x %d,depth is %d'',
                 rc e (SetQHYCCDResolution 0 0 (chip_w e) (chip_h e)) 0]
           in if ret e (SetQHYCCDResolution 0 0 (chip_w e) (chip_h e)) 0 = QHYCCD_SUCCESS K
              then
                let t3 = t2 @ [Print ''SetQHYCCDResolution success!'',
                               Call GetQHYCCDMemLength (Len (mem_length e))] @
                              alloc_buffer (mem_length e)
                in if memset_faults (mem_length e) then (t3, Some Killed)
                   else (t3 @ [rc e (SetQHYCCDParam CONTROL_EXPOSURE) 0], None)
              else (t2 @ [Print ''SetQHYCCDResolution fail''], Some (Exit 1)))"


text \<open>
  One pass through the \<open>while(true)\<close> of \<open>test_single_opencv\<close> (lines 76 to 105):
  whether the pass leaves the loop, and the events of the pass. The prompt is written
  here without its quotation marks. Sleeping and \<open>cv::waitKey\<close> leave no event.
\<close>

definition single_iter :: "sdk_consts \<Rightarrow> sdk \<Rightarrow> nat \<Rightarrow> bool \<times> event list" where
  "single_iter K e n =
     (let t1 = [Print ''q = quit      any = continue'', Input (input e n)]
      in if input e n = CHR ''q'' \<or> input e n = CHR ''Q''
         then (True, t1 @ [Print ''quit''])
         else (False,
               t1 @ [rc e ExpQHYCCDSingleFrame n, rc e GetQHYCCDSingleFrame n] @
               (if ret e GetQHYCCDSingleFrame n = QHYCCD_SUCCESS K then show_frame e n
                else [])))"

text \<open>
  The loop from its \<open>n\<close>-th pass on, after the events \<open>t\<close>. \<open>None\<close> is a loop that
  never ends.
\<close>

partial_function (option) single_loop ::
  "sdk_consts \<Rightarrow> sdk \<Rightarrow> nat \<Rightarrow> event list \<Rightarrow> event list option" where
  "single_loop K e n t =
     (if fst (single_iter K e n) then Some (t @ snd (single_iter K e n))
      else single_loop K e (Suc n) (t @ snd (single_iter K e n)))"

declare single_loop.simps [code]

definition test_single_opencv :: "sdk_consts \<Rightarrow> sdk \<Rightarrow> (event list \<times> status) option" where
  "test_single_opencv K e =
     (case opencv_init K e (SINGLE_MODE K) of
        (t, Some status) \<Rightarrow> Some (t, status)
      | (t, None) \<Rightarrow>
          (case single_loop K e 0 t of
             None \<Rightarrow> None
           | Some t' \<Rightarrow>
               Some (t' @ [rc e CloseQHYCCD 0, rc e ReleaseQHYCCDResource 0], Exit 0)))"

text \<open>
  One pass through the \<open>while(true)\<close> of \<open>test_live_opencv\<close> (lines 87 to 104). The
  loop has no way out.
\<close>

definition live_iter :: "sdk_consts \<Rightarrow> sdk \<Rightarrow> nat \<Rightarrow> event list" where
  "live_iter K e n =
     rc e GetQHYCCDLiveFrame n #
     (if ret e GetQHYCCDLiveFrame n = QHYCCD_SUCCESS K then show_frame e n else [])"

partial_function (option) live_loop ::
  "sdk_consts \<Rightarrow> sdk \<Rightarrow> nat \<Rightarrow> event list \<Rightarrow> event list option" where
  "live_loop K e n t = live_loop K e (Suc n) (t @ live_iter K e n)"

declare live_loop.simps [code]

definition test_live_opencv :: "sdk_consts \<Rightarrow> sdk \<Rightarrow> (event list \<times> status) option" where
  "test_live_opencv K e =
     (case opencv_init K e (LIVE_MODE K) of
        (t, Some status) \<Rightarrow> Some (t, status)
      | (t, None) \<Rightarrow>
          (case live_loop K e 0 (t @ [rc e BeginQHYCCDLive 0]) of
             None \<Rightarrow> None
           | Some t' \<Rightarrow>
               Some (t' @ [rc e StopQHYCCDLive 0, rc e CloseQHYCCD 0,
                           rc e ReleaseQHYCCDResource 0], Exit 0)))"

text \<open>
  What a run that is still in its loop has produced after \<open>m\<close> passes, starting with
  pass \<open>n\<close>.
\<close>

primrec single_passes :: "sdk_consts \<Rightarrow> sdk \<Rightarrow> nat \<Rightarrow> nat \<Rightarrow> event list" where
  "single_passes K e n 0 = []"
| "single_passes K e n (Suc m) = snd (single_iter K e n) @ single_passes K e (Suc n) m"

primrec live_passes :: "sdk_consts \<Rightarrow> sdk \<Rightarrow> nat \<Rightarrow> nat \<Rightarrow> event list" where
  "live_passes K e n 0 = []"
| "live_passes K e n (Suc m) = live_iter K e n @ live_passes K e (Suc n) m"

text \<open>
  The loop started at pass \<open>n\<close> after the events \<open>t\<close> ends with the events
  \<open>t'\<close>: some pass \<open>n + m\<close> is the first to leave the loop.
\<close>

definition quits_at :: "sdk_consts \<Rightarrow> sdk \<Rightarrow> nat \<Rightarrow> event list \<Rightarrow> event list \<Rightarrow> bool" where
  "quits_at K e n t t' =
     (\<exists>m. t' = t @ single_passes K e n (Suc m) \<and> fst (single_iter K e (n + m))
        \<and> (\<forall>k<m. \<not> fst (single_iter K e (n + k))))"

text \<open>
  The events of a run that has been through \<open>m\<close> passes of its loop and is still
  in it.
\<close>

definition single_prefix :: "sdk_consts \<Rightarrow> sdk \<Rightarrow> nat \<Rightarrow> event list" where
  "single_prefix K e m = fst (opencv_init K e (SINGLE_MODE K)) @ single_passes K e 0 m"

definition live_prefix :: "sdk_consts \<Rightarrow> sdk \<Rightarrow> nat \<Rightarrow> event list" where
  "live_prefix K e m =
     fst (opencv_init K e (LIVE_MODE K)) @ rc e BeginQHYCCDLive 0 # live_passes K e 0 m"

subsection \<open>\<open>base_test/main.cpp\<close>\<close>

text \<open>\<open>SDKVersion\<close>, lines 27 to 79: the format chosen for the version string.\<close>

definition SDKVersion :: "sdk \<Rightarrow> event list" where
  "SDKVersion e =
     [rc e GetQHYCCDSDKVersion 0,
      Print (if YMDS e 1 < 10 \<and> YMDS e 2 < 10 then ''V20%d0%d0%d_%d''
             else if YMDS e 1 < 10 \<and> YMDS e 2 > 10 then ''V20%d0%d%d_%d''
             else if YMDS e 1 > 10 \<and> YMDS e 2 < 10 then ''V20%d%d0%d_%d''
             else ''V20%d%d%d_%d'')]"

text \<open>\<open>FirmWareVersion\<close>, lines 85 to 145.\<close>

definition FirmWareVersion :: "sdk_consts \<Rightarrow> sdk \<Rightarrow> event list" where
  "FirmWareVersion K e =
     [rc e GetQHYCCDFWVersion 0,
      if ret e GetQHYCCDFWVersion 0 = QHYCCD_SUCCESS K
      then PrintVersion (FirmWareVersion_args (fwv e))
      else Print ''Firmware version:Not Found!'']"

text \<open>
  The \<open>for\<close> loop of lines 223 to 241 from index \<open>i\<close> on: the events, and whether
  \<open>found\<close> is 1 afterwards.
\<close>

function GetQHYCCDId_loop :: "sdk_consts \<Rightarrow> sdk \<Rightarrow> int \<Rightarrow> int \<Rightarrow> event list \<times> bool" where
  "GetQHYCCDId_loop K e i num =
     (if i < num
      then if ret e (GetQHYCCDId i) 0 = QHYCCD_SUCCESS K
           then ([rc e (GetQHYCCDId i) 0,
                  Print ''connected to the first camera from the list,id is %s''], True)
           else (rc e (GetQHYCCDId i) 0 # fst (GetQHYCCDId_loop K e (i + 1) num),
                 snd (GetQHYCCDId_loop K e (i + 1) num))
      else ([], False))"
  by pat_completeness auto
termination
  by (relation "measure (\<lambda>(K, e, i, num). nat (num - i))") auto

declare GetQHYCCDId_loop.simps [simp del]

text \<open>One pass of the \<open>for(int i=0;i<4;i++)\<close> of lines 497 to 533.\<close>

definition cooler_iter :: "sdk \<Rightarrow> nat \<Rightarrow> event list" where
  "cooler_iter e i =
     [Print ''  +  '',
      rc e (SetQHYCCDParam CONTROL_COOLER) i,
      Call (GetQHYCCDParam CONTROL_CURTEMP) Dbl,
      Print ''now_t'',
      Call (GetQHYCCDParam CONTROL_CURPWM) Dbl,
      Print ''now_p'']"

text \<open>The label \<open>failure\<close>, lines 605 to 609.\<close>

definition failure :: "event list \<Rightarrow> event list \<times> status" where
  "failure t = (t @ [Print ''some fatal error happened''], Exit 1)"

text \<open>Lines 551 to 609: what follows the \<open>if(found == 1)\<close> block.\<close>

definition base_test_close :: "sdk_consts \<Rightarrow> sdk \<Rightarrow> event list \<Rightarrow> event list \<times> status" where
  "base_test_close K e t =
     (let release = (\<lambda>t.
            if ret e ReleaseQHYCCDResource 0 = QHYCCD_SUCCESS K
            then (t @ [rc e ReleaseQHYCCDResource 0, Print ''Rlease SDK Resource  success!''],
                  Exit 0)
            else failure (t @ [rc e ReleaseQHYCCDResource 0]))
      in if handle e \<noteq> 0
         then if ret e CloseQHYCCD 0 = QHYCCD_SUCCESS K
              then release (t @ [rc e StopQHYCCDLive 0, rc e CloseQHYCCD 0,
                                 Print ''Close QHYCCD success!''])
              else failure (t @ [rc e StopQHYCCDLive 0, rc e CloseQHYCCD 0])
         else release t)"

text \<open>Lines 317 to 533: from \<open>SetQHYCCDStreamMode\<close> to the end of the cooler loop.\<close>

definition base_test_configure ::
  "sdk_consts \<Rightarrow> sdk \<Rightarrow> event list \<Rightarrow> event list \<times> status" where
  "base_test_configure K e t =
     (let t1 = t @ [rc e (SetQHYCCDStreamMode 1) 0, rc e InitQHYCCD 0]
      in if ret e InitQHYCCD 0 = QHYCCD_SUCCESS K
         then
           let t2 = t1 @ [Print ''bit = 8.2'', Print ''Init QHYCCD success -------------!'',
                          rc e (IsQHYCCDControlAvailable CONTROL_TRANSFERBIT) 0];
               bits_failed = (ret e (IsQHYCCDControlAvailable CONTROL_TRANSFERBIT) 0 = QHYCCD_SUCCESS K
                              \<and> ret e (SetQHYCCDBitsMode 8) 0 \<noteq> QHYCCD_SUCCESS K);
               t3 = t2 @ (if ret e (IsQHYCCDControlAvailable CONTROL_TRANSFERBIT) 0 = QHYCCD_SUCCESS K
                          then [rc e (SetQHYCCDBitsMode 8) 0, Print ''bit = 8''] else [])
           in if bits_failed
              then (t3 @ [Print ''SetQHYCCDParam CONTROL_GAIN failed'', GetChar], Exit 1)
              else
                let t4 = t3 @ [rc e (SetQHYCCDBitsMode 8) 1, Print ''bit = 8.2'',
                               rc e GetQHYCCDChipInfo 0]
                in if ret e GetQHYCCDChipInfo 0 = QHYCCD_SUCCESS K
                   then
                     let t5 = t4 @
                          [Print ''GetQHYCCDChipInfo success!'',
                           Print ''CCD/CMOS chip information:'',
                           Print ''Chip width %3f mm,Chip height %3f mm'',
                           Print ''Chip pixel width %3f um,Chip pixel height %3f um'',
                           Print ''Chip Max Resolution is %d x %d,depth is %d'',
                           rc e (SetQHYCCDResolution 0 0 (chip_w e) (chip_h e)) 0]
                     in if ret e (SetQHYCCDResolution 0 0 (chip_w e) (chip_h e)) 0 = QHYCCD_SUCCESS K
                        then
                          let t6 = t5 @ [Print ''SetQHYCCDResolution success!'',
                                         Call GetQHYCCDMemLength (Len (mem_length e))]
                          in if 0 < sint (mem_length e)
                             then base_test_close K e
                                    (t6 @ alloc_buffer (mem_length e) @
                                     [Call (EnableQHYCCDMessage True) Void] @
                                     concat (map (cooler_iter e) [0..<4]))
                             else failure (t6 @ [Print ''Get the min memory space length failure''])
                        else failure (t5 @ [Print ''SetQHYCCDResolution fail''])
                   else failure (t4 @ [Print ''GetQHYCCDChipInfo fail''])
         else failure (t1 @ [Print ''Init QHYCCD fail code:%d'']))"

text \<open>\<open>main\<close>, lines 151 to 611.\<close>

definition base_test :: "sdk_consts \<Rightarrow> sdk \<Rightarrow> event list \<times> status" where
  "base_test K e =
     (let t0 = SDKVersion e @ [rc e InitQHYCCDResource 0, Call (EnableQHYCCDMessage False) Void]
      in if ret e InitQHYCCDResource 0 = QHYCCD_SUCCESS K
         then
           let t1 = t0 @ [Print ''Init SDK success    ------!'',
                          Call ScanQHYCCD (Count (scan_num e))]
           in if 0 < sint (scan_num e)
              then
                let t2 = t1 @ [Print ''Yes!Found QHYCCD,the num is %d''] @
                         fst (GetQHYCCDId_loop K e 0 (sint (scan_num e)))
                in if snd (GetQHYCCDId_loop K e 0 (sint (scan_num e)))
                   then
                     let t3 = t2 @ [Call OpenQHYCCD (Handle (handle e))]
                     in if handle e \<noteq> 0
                        then
                          let t4 = t3 @ [Print ''Open QHYCCD success!'',
                                         rc e (SetQHYCCDReadMode 4) 0] @
                                   FirmWareVersion K e @
                                   [rc e (IsQHYCCDControlAvailable CAM_LIVEVIDEOMODE) 0]
                          in if QHYCCD_ERROR K = ret e (IsQHYCCDControlAvailable CAM_LIVEVIDEOMODE) 0
                             then (t4 @ [Print ''The detected camera is not support live frame.'',
                                         rc e ReleaseQHYCCDResource 0,
                                         if QHYCCD_SUCCESS K = ret e ReleaseQHYCCDResource 0
                                         then Print ''SDK resources released.''
                                         else Print ''Cannot release SDK resources, error %d.''],
                                   Exit 1)
                             else base_test_configure K e t4
                        else failure (t3 @ [Print ''Open QHYCCD failed''])
                   else failure (t2 @ [Print ''The camera is not QHYCCD or other error''])
              else failure (t1 @ [Print ''Not Found QHYCCD,please check the usblink or the power''])
         else failure t0)"


section \<open>Properties of runs\<close>

text \<open>The SDK functions a run calls, in order.\<close>

primrec calls :: "event list \<Rightarrow> sdk_call list" where
  "calls [] = []"
| "calls (x # t) = (case x of Call c r \<Rightarrow> c # calls t | _ \<Rightarrow> calls t)"

text \<open>How often the handle is released.\<close>

definition closes :: "event list \<Rightarrow> nat" where
  "closes t = count_list (calls t) CloseQHYCCD"

text \<open>Whether \<open>OpenQHYCCD\<close> has handed out a handle.\<close>

primrec opened :: "event list \<Rightarrow> bool" where
  "opened [] = False"
| "opened (x # t) = ((case x of Call c r \<Rightarrow> c = OpenQHYCCD \<and> r \<noteq> Handle 0 | _ \<Rightarrow> False) \<or> opened t)"

text \<open>The sizes of the buffers a run allocates, in order.\<close>

primrec mallocs :: "event list \<Rightarrow> u64 list" where
  "mallocs [] = []"
| "mallocs (x # t) = (case x of Malloc n \<Rightarrow> n # mallocs t | _ \<Rightarrow> mallocs t)"

text \<open>
  The phases of the specification: 0 resource initialization, 1 device discovery,
  2 device open, 3 mode and parameter configuration, 4 the loop, 5 teardown.
  \<open>GetQHYCCDSDKVersion\<close> and \<open>EnableQHYCCDMessage\<close> belong to no phase.
\<close>

fun phase :: "sdk_call \<Rightarrow> nat option" where
  "phase GetQHYCCDSDKVersion = None"
| "phase (EnableQHYCCDMessage b) = None"
| "phase InitQHYCCDResource = Some 0"
| "phase ScanQHYCCD = Some 1"
| "phase (GetQHYCCDId i) = Some 1"
| "phase OpenQHYCCD = Some 2"
| "phase (SetQHYCCDParam c) = (if c = CONTROL_COOLER then Some 4 else Some 3)"
| "phase (GetQHYCCDParam c) = Some 4"
| "phase BeginQHYCCDLive = Some 4"
| "phase GetQHYCCDLiveFrame = Some 4"
| "phase ExpQHYCCDSingleFrame = Some 4"
| "phase GetQHYCCDSingleFrame = Some 4"
| "phase StopQHYCCDLive = Some 5"
| "phase CloseQHYCCD = Some 5"
| "phase ReleaseQHYCCDResource = Some 5"
| "phase c = Some 3"

primrec phases :: "sdk_call list \<Rightarrow> nat list" where
  "phases [] = []"
| "phases (c # cs) = (case phase c of None \<Rightarrow> phases cs | Some p \<Rightarrow> p # phases cs)"

definition in_phase_order :: "event list \<Rightarrow> bool" where
  "in_phase_order t = sorted (phases (calls t))"

fun none_after_release :: "sdk_call list \<Rightarrow> bool" where
  "none_after_release [] = True"
| "none_after_release (c # cs) =
     (if c = ReleaseQHYCCDResource then cs = [] else none_after_release cs)"

text \<open>The last two SDK calls of the run are the teardown.\<close>

definition ends_with_teardown :: "event list \<Rightarrow> bool" where
  "ends_with_teardown t =
     (drop (length (calls t) - 2) (calls t) = [CloseQHYCCD, ReleaseQHYCCDResource])"

text \<open>The SDK functions whose first argument is the handle.\<close>

fun takes_handle :: "sdk_call \<Rightarrow> bool" where
  "takes_handle GetQHYCCDSDKVersion = False"
| "takes_handle InitQHYCCDResource = False"
| "takes_handle (EnableQHYCCDMessage b) = False"
| "takes_handle ScanQHYCCD = False"
| "takes_handle (GetQHYCCDId i) = False"
| "takes_handle OpenQHYCCD = False"
| "takes_handle ReleaseQHYCCDResource = False"
| "takes_handle c = True"

fun no_use_after_close :: "sdk_call list \<Rightarrow> bool" where
  "no_use_after_close [] = True"
| "no_use_after_close (c # cs) =
     (if c = CloseQHYCCD then (\<forall>x \<in> set cs. \<not> takes_handle x) else no_use_after_close cs)"

text \<open>
  The frame buffer is read only when the latest frame fetch has returned
  \<open>QHYCCD_SUCCESS\<close>. The flag says whether that is so at the start of the events.
\<close>

fun is_fetch :: "sdk_call \<Rightarrow> bool" where
  "is_fetch GetQHYCCDLiveFrame = True"
| "is_fetch GetQHYCCDSingleFrame = True"
| "is_fetch c = False"

fun frames_guarded :: "sdk_consts \<Rightarrow> bool \<Rightarrow> event list \<Rightarrow> bool" where
  "frames_guarded K ok [] = True"
| "frames_guarded K ok (Call c r # t) =
     (if is_fetch c then frames_guarded K (r = Code (QHYCCD_SUCCESS K)) t
      else frames_guarded K ok t)"
| "frames_guarded K ok (ShowFrame # t) = (ok \<and> frames_guarded K ok t)"
| "frames_guarded K ok (x # t) = frames_guarded K ok t"



text \<open>
  The events after the first call among \<open>chk\<close> whose return code differs from
  \<open>QHYCCD_SUCCESS\<close>, if there is one.
\<close>

fun after_failure :: "sdk_consts \<Rightarrow> (sdk_call \<Rightarrow> bool) \<Rightarrow> event list \<Rightarrow> event list option" where
  "after_failure K chk [] = None"
| "after_failure K chk (Call c (Code r) # t) =
     (if chk c \<and> r \<noteq> QHYCCD_SUCCESS K then Some t else after_failure K chk t)"
| "after_failure K chk (x # t) = after_failure K chk t"

text \<open>
  The calls whose failing return code ends the run, with nothing but printed lines
  behind the failing call: \<open>SetQHYCCDResolution\<close> in every program, and four more in
  \<open>base_test\<close>. \<open>is_call c\<close> picks the calls of \<open>c\<close>.
\<close>

definition is_call :: "sdk_call \<Rightarrow> sdk_call \<Rightarrow> bool" where
  "is_call c c' = (c' = c)"

fun is_SetQHYCCDResolution :: "sdk_call \<Rightarrow> bool" where
  "is_SetQHYCCDResolution (SetQHYCCDResolution x y w h) = True"
| "is_SetQHYCCDResolution c = False"

definition base_test_fatal :: "sdk_call \<Rightarrow> bool" where
  "base_test_fatal c =
     (is_SetQHYCCDResolution c \<or> c = InitQHYCCD \<or> c = GetQHYCCDChipInfo \<or> c = CloseQHYCCD
      \<or> c = ReleaseQHYCCDResource)"

text \<open>
  What the claims ask of a run, given as its events and the way it ends.
  \<open>released_once\<close>: the handle is released at most once, and exactly once when the
  status is 0.
\<close>

definition released_once :: "event list \<times> status \<Rightarrow> bool" where
  "released_once r = (closes (fst r) \<le> 1 \<and> (snd r = Exit 0 \<longrightarrow> closes (fst r) = 1))"

text \<open>
  \<open>runs_in_order\<close>: the calls come in phase order, nothing follows
  \<open>ReleaseQHYCCDResource\<close>, and a run with status 0 ends with the teardown.
\<close>

definition runs_in_order :: "event list \<times> status \<Rightarrow> bool" where
  "runs_in_order r =
     (in_phase_order (fst r) \<and> none_after_release (calls (fst r))
      \<and> (snd r = Exit 0 \<longrightarrow> ends_with_teardown (fst r)))"

text \<open>
  \<open>in_order_upto p\<close>: the calls made so far are in phase order, none is of a phase
  beyond \<open>p\<close>, and \<open>ReleaseQHYCCDResource\<close> is not among them.
\<close>

definition in_order_upto :: "nat \<Rightarrow> event list \<Rightarrow> bool" where
  "in_order_upto p t =
     (sorted (phases (calls t)) \<and> (\<forall>x \<in> set (phases (calls t)). x \<le> p)
      \<and> ReleaseQHYCCDResource \<notin> set (calls t))"

text \<open>
  \<open>allocates_once\<close>: the run allocates no buffer or one buffer, of the size
  \<open>GetQHYCCDMemLength\<close> has just returned, and a run with status 0 has allocated it.
\<close>

definition allocates_once :: "sdk \<Rightarrow> event list \<times> status \<Rightarrow> bool" where
  "allocates_once e r =
     ((mallocs (fst r) = [] \<or> mallocs (fst r) = [scast (mem_length e)])
      \<and> (mallocs (fst r) \<noteq> [] \<longrightarrow> Call GetQHYCCDMemLength (Len (mem_length e)) \<in> set (fst r))
      \<and> (snd r = Exit 0 \<longrightarrow> mallocs (fst r) \<noteq> []))"

text \<open>
  \<open>allocation_guarded\<close>: when \<open>GetQHYCCDMemLength\<close> answers a value that is not
  positive, the run allocates nothing and ends with status 1.
\<close>

definition allocation_guarded :: "sdk \<Rightarrow> event list \<times> status \<Rightarrow> bool" where
  "allocation_guarded e r =
     (\<not> 0 < sint (mem_length e) \<longrightarrow> mallocs (fst r) = [] \<and> snd r = Exit 1)"



text \<open>
  The checks whose failure ends a run: those of the three small programs, and those of
  \<open>base_test\<close>.
\<close>

definition small_checks_pass :: "sdk_consts \<Rightarrow> sdk \<Rightarrow> bool" where
  "small_checks_pass K e =
     (scan_num e \<noteq> 0
      \<and> ret e (SetQHYCCDResolution 0 0 (chip_w e) (chip_h e)) 0 = QHYCCD_SUCCESS K)"

text \<open>
  How a run of \<open>test_base\<close> ends: with status 1 when one of its checks fails, killed in
  \<open>memset\<close> when the checks pass and the length is negative, and with status 0
  otherwise.
\<close>

definition small_status :: "sdk_consts \<Rightarrow> sdk \<Rightarrow> status" where
  "small_status K e =
     (if \<not> small_checks_pass K e then Exit 1
      else if memset_faults (mem_length e) then Killed
      else Exit 0)"



section \<open>Sample inputs\<close>

text \<open>The macro values of the vendor header, and a camera that answers every call well.\<close>

definition K0 :: sdk_consts where
  "K0 = \<lparr>QHYCCD_SUCCESS = 0, QHYCCD_ERROR = 0xFFFFFFFF, LIVE_MODE = 1, SINGLE_MODE = 0\<rparr>"

definition e_ok :: sdk where
  "e_ok = \<lparr>ret = (\<lambda>c k. 0), YMDS = (\<lambda>i. [24, 12, 26, 0] ! i), scan_num = 1, handle = 1,
           fwv = 0x23 # 5 # replicate 30 0, chip_w = 640, chip_h = 480,
           mem_length = 307200,
           input = (\<lambda>n. if n < 2 then CHR ''a'' else CHR ''q''),
           clock_5s = (\<lambda>n. False)\<rparr>"

text \<open>No camera is attached.\<close>

definition e_none :: sdk where
  "e_none = e_ok\<lparr>scan_num := 0\<rparr>"

text \<open>\<open>SetQHYCCDResolution\<close> fails.\<close>

definition e_res_fail :: sdk where
  "e_res_fail = e_ok\<lparr>ret := (\<lambda>c k. if is_SetQHYCCDResolution c then 0xFFFFFFFF else 0)\<rparr>"


text \<open>The first frame fetch fails, the second succeeds.\<close>

definition e_fetch_fail :: sdk where
  "e_fetch_fail = e_ok\<lparr>ret := (\<lambda>c k. if is_fetch c \<and> k = 0 then 0xFFFFFFFF else 0)\<rparr>"

text \<open>\<open>GetQHYCCDMemLength\<close> answers 0.\<close>

definition e_len0 :: sdk where
  "e_len0 = e_ok\<lparr>mem_length := 0\<rparr>"





section \<open>Words\<close>




















section \<open>Lists of events\<close>

lemma calls_append [simp]: "calls (a @ b) = calls a @ calls b"
  by (induction a) (auto split: event.splits)

lemma mallocs_append [simp]: "mallocs (a @ b) = mallocs a @ mallocs b"
  by (induction a) (auto split: event.splits)

lemma phases_append [simp]: "phases (a @ b) = phases a @ phases b"
  by (induction a) (auto split: option.splits)

lemma closes_Nil [simp]: "closes [] = 0"
  by (simp add: closes_def)

lemma closes_Cons [simp]:
  "closes (x # t) =
     (case x of Call c r \<Rightarrow> (if c = CloseQHYCCD then 1 else 0) | _ \<Rightarrow> 0) + closes t"
  by (simp add: closes_def split: event.splits)

lemma closes_append [simp]: "closes (a @ b) = closes a + closes b"
  by (simp add: closes_def)

lemma closes_quiet: "CloseQHYCCD \<notin> set (calls t) \<Longrightarrow> closes t = 0"
  by (simp add: closes_def)

lemma none_after_release_quiet:
  "ReleaseQHYCCDResource \<notin> set cs \<Longrightarrow> none_after_release (cs @ r) = none_after_release r"
  by (induction cs) auto

lemma no_use_after_close_quiet:
  "CloseQHYCCD \<notin> set cs \<Longrightarrow> no_use_after_close (cs @ r) = no_use_after_close r"
  by (induction cs) auto

lemma phases_same:
  "\<forall>c \<in> set cs. phase c = Some p \<Longrightarrow> set (phases cs) \<subseteq> {p} \<and> sorted (phases cs)"
  by (induction cs) auto

lemma after_failure_quiet:
  "\<forall>c \<in> set (calls t). \<not> chk c \<Longrightarrow> after_failure K chk (t @ r) = after_failure K chk r"
proof (induction t)
  case Nil
  show ?case by simp
next
  case (Cons x t)
  then show ?case
    by (cases x; simp) (rename_tac c v, case_tac v; simp)
qed

lemma frames_guarded_quiet:
  "\<forall>c \<in> set (calls t). \<not> is_fetch c \<Longrightarrow> ShowFrame \<notin> set t \<Longrightarrow>
   frames_guarded K ok (t @ r) = frames_guarded K ok r"
proof (induction t)
  case Nil
  show ?case by simp
next
  case (Cons x t)
  then show ?case by (cases x) simp_all
qed

section \<open>The loops\<close>

lemma calls_show_frame [simp]: "calls (show_frame e n) = []"
  by (simp add: show_frame_def)

lemma mallocs_show_frame [simp]: "mallocs (show_frame e n) = []"
  by (simp add: show_frame_def)

lemma calls_single_iter:
  "calls (snd (single_iter K e n)) =
     (if fst (single_iter K e n) then [] else [ExpQHYCCDSingleFrame, GetQHYCCDSingleFrame])"
  by (simp add: single_iter_def Let_def)

lemma calls_live_iter [simp]: "calls (live_iter K e n) = [GetQHYCCDLiveFrame]"
  by (simp add: live_iter_def)

lemma calls_single_passes:
  "set (calls (single_passes K e n m)) \<subseteq> {ExpQHYCCDSingleFrame, GetQHYCCDSingleFrame}"
  by (induction m arbitrary: n) (auto simp: calls_single_iter split: if_splits)

lemma calls_live_passes: "set (calls (live_passes K e n m)) \<subseteq> {GetQHYCCDLiveFrame}"
  by (induction m arbitrary: n) auto

lemma mallocs_single_passes [simp]: "mallocs (single_passes K e n m) = []"
  by (induction m arbitrary: n) (auto simp: single_iter_def Let_def)

lemma mallocs_live_passes [simp]: "mallocs (live_passes K e n m) = []"
  by (induction m arbitrary: n) (auto simp: live_iter_def)

lemma calls_GetQHYCCDId_loop:
  "set (calls (fst (GetQHYCCDId_loop K e i num))) \<subseteq> range GetQHYCCDId"
proof (induction K e i num rule: GetQHYCCDId_loop.induct)
  case (1 K e i num)
  then show ?case
    by (subst GetQHYCCDId_loop.simps) auto
qed

lemma mallocs_GetQHYCCDId_loop [simp]: "mallocs (fst (GetQHYCCDId_loop K e i num)) = []"
proof (induction K e i num rule: GetQHYCCDId_loop.induct)
  case (1 K e i num)
  then show ?case
    by (subst GetQHYCCDId_loop.simps) auto
qed

lemma no_show_GetQHYCCDId_loop: "ShowFrame \<notin> set (fst (GetQHYCCDId_loop K e i num))"
proof (induction K e i num rule: GetQHYCCDId_loop.induct)
  case (1 K e i num)
  then show ?case
    by (subst GetQHYCCDId_loop.simps) auto
qed

lemma live_loop_not_Some: "live_loop K e n t \<noteq> Some y"
proof
  assume returns: "live_loop K e n t = Some y"
  show False
  proof (rule live_loop.raw_induct[where P = "\<lambda>K e n t y. False", OF _ returns])
    fix loop :: "sdk_consts \<Rightarrow> sdk \<Rightarrow> nat \<Rightarrow> event list \<Rightarrow> event list option"
      and K e n t y
    assume IH: "\<And>K e n t y. loop K e n t = Some y \<Longrightarrow> False"
      and body: "loop K e (Suc n) (t @ live_iter K e n) = Some y"
    from IH[OF body] show False .
  qed
qed

lemma live_loop_None: "live_loop K e n t = None"
  using live_loop_not_Some[of K e n t] by (cases "live_loop K e n t") auto

lemma quits_at_now:
  "fst (single_iter K e n) \<Longrightarrow> quits_at K e n t (t @ snd (single_iter K e n))"
  unfolding quits_at_def by (intro exI[where x = 0]) simp

lemma quits_at_later:
  assumes "\<not> fst (single_iter K e n)"
    and "quits_at K e (Suc n) (t @ snd (single_iter K e n)) t'"
  shows "quits_at K e n t t'"
proof -
  from assms(2) obtain m where
    m: "t' = (t @ snd (single_iter K e n)) @ single_passes K e (Suc n) (Suc m)"
       "fst (single_iter K e (Suc n + m))"
       "\<forall>k<m. \<not> fst (single_iter K e (Suc n + k))"
    unfolding quits_at_def by blast
  have "\<forall>k<Suc m. \<not> fst (single_iter K e (n + k))"
  proof (intro allI impI)
    fix k assume "k < Suc m"
    then show "\<not> fst (single_iter K e (n + k))"
      using assms(1) m(3) by (cases k) auto
  qed
  with m(1,2) show ?thesis
    unfolding quits_at_def by (intro exI[where x = "Suc m"]) simp
qed

lemma single_loop_SomeD:
  assumes "single_loop K e n t = Some t'"
  shows "quits_at K e n t t'"
proof (rule single_loop.raw_induct[where P = quits_at, OF _ assms])
  fix loop K e n t t'
  assume IH: "\<And>K e n t y. loop K e n t = Some y \<Longrightarrow> quits_at K e n t y"
    and body: "(if fst (single_iter K e n) then Some (t @ snd (single_iter K e n))
                else loop K e (Suc n) (t @ snd (single_iter K e n))) = Some t'"
  show "quits_at K e n t t'"
  proof (cases "fst (single_iter K e n)")
    case True
    with body have "t' = t @ snd (single_iter K e n)" by simp
    with True show ?thesis by (simp add: quits_at_now)
  next
    case False
    with body have "loop K e (Suc n) (t @ snd (single_iter K e n)) = Some t'" by simp
    from IH[OF this] False show ?thesis by (rule quits_at_later[rotated])
  qed
qed

section \<open>Runs that return\<close>

lemma test_live_opencv_SomeD:
  "test_live_opencv K e = Some (t, st) \<Longrightarrow> opencv_init K e (LIVE_MODE K) = (t, Some st)"
  by (cases "opencv_init K e (LIVE_MODE K)")
     (simp add: test_live_opencv_def live_loop_None split: option.splits)

lemma test_single_opencv_SomeD:
  assumes "test_single_opencv K e = Some (t, st)"
  shows "opencv_init K e (SINGLE_MODE K) = (t, Some st)
         \<or> (\<exists>t0 m. opencv_init K e (SINGLE_MODE K) = (t0, None) \<and> st = Exit 0
               \<and> t = t0 @ single_passes K e 0 (Suc m)
                      @ [rc e CloseQHYCCD 0, rc e ReleaseQHYCCDResource 0])"
proof (cases "opencv_init K e (SINGLE_MODE K)")
  case (Pair t0 r)
  show ?thesis
  proof (cases r)
    case (Some s)
    with Pair assms show ?thesis by (simp add: test_single_opencv_def)
  next
    case None
    with Pair assms obtain t' where
      loop: "single_loop K e 0 t0 = Some t'"
      and t: "t = t' @ [rc e CloseQHYCCD 0, rc e ReleaseQHYCCDResource 0]" and st: "st = Exit 0"
      by (auto simp add: test_single_opencv_def split: option.splits)
    from single_loop_SomeD[OF loop] obtain m where "t' = t0 @ single_passes K e 0 (Suc m)"
      unfolding quits_at_def by blast
    with Pair None t st show ?thesis by auto
  qed
qed

lemma opencv_init_status:
  "snd (opencv_init K e mode) = Some st \<Longrightarrow>
     st = Exit 1 \<or> st = Killed \<and> memset_faults (mem_length e)"
  by (auto simp add: opencv_init_def Let_def split: if_splits)

lemma opencv_init_not_0: "snd (opencv_init K e mode) = Some st \<Longrightarrow> st \<noteq> Exit 0"
  by (auto dest: opencv_init_status)

section \<open>The calls of the helper functions\<close>

lemma calls_SDKVersion [simp]: "calls (SDKVersion e) = [GetQHYCCDSDKVersion]"
  by (simp add: SDKVersion_def)

lemma calls_FirmWareVersion [simp]: "calls (FirmWareVersion K e) = [GetQHYCCDFWVersion]"
  by (simp add: FirmWareVersion_def)

lemma calls_alloc_buffer [simp]: "calls (alloc_buffer len) = []"
  by (simp add: alloc_buffer_def)

lemma calls_cooler_iter [simp]:
  "calls (cooler_iter e i) =
     [SetQHYCCDParam CONTROL_COOLER, GetQHYCCDParam CONTROL_CURTEMP, GetQHYCCDParam CONTROL_CURPWM]"
  by (simp add: cooler_iter_def)

lemma upt_4: "[0..<4] = [0, 1, 2, 3]"
  by (simp add: upt_rec)

lemma calls_cooler_loop [simp]:
  "calls (concat (map (cooler_iter e) [0..<4])) =
     [SetQHYCCDParam CONTROL_COOLER, GetQHYCCDParam CONTROL_CURTEMP, GetQHYCCDParam CONTROL_CURPWM,
      SetQHYCCDParam CONTROL_COOLER, GetQHYCCDParam CONTROL_CURTEMP, GetQHYCCDParam CONTROL_CURPWM,
      SetQHYCCDParam CONTROL_COOLER, GetQHYCCDParam CONTROL_CURTEMP, GetQHYCCDParam CONTROL_CURPWM,
      SetQHYCCDParam CONTROL_COOLER, GetQHYCCDParam CONTROL_CURTEMP, GetQHYCCDParam CONTROL_CURPWM]"
  by (simp add: upt_4)

lemma fst_failure [simp]: "fst (failure t) = t @ [Print ''some fatal error happened'']"
  by (simp add: failure_def)

lemma snd_failure [simp]: "snd (failure t) = Exit 1"
  by (simp add: failure_def)

section \<open>Releasing the handle\<close>

lemma closes_single_passes [simp]: "closes (single_passes K e n m) = 0"
  using calls_single_passes[of K e n m] by (intro closes_quiet) auto

lemma closes_GetQHYCCDId_loop [simp]: "closes (fst (GetQHYCCDId_loop K e i num)) = 0"
  using calls_GetQHYCCDId_loop[of K e i num] by (intro closes_quiet) auto

lemma closes_helpers [simp]:
  "closes (SDKVersion e) = 0" "closes (FirmWareVersion K e) = 0"
  "closes (alloc_buffer len) = 0" "closes (concat (map (cooler_iter e) [0..<4])) = 0"
  by (simp_all add: closes_quiet)

lemma closes_opencv_init [simp]: "closes (fst (opencv_init K e mode)) = 0"
  by (simp add: opencv_init_def Let_def)

lemma released_once_Pair:
  "released_once (t, st) = (closes t \<le> 1 \<and> (st = Exit 0 \<longrightarrow> closes t = 1))"
  by (simp add: released_once_def)

lemma released_once_failure [simp]: "released_once (failure t) = (closes t \<le> 1)"
  by (simp add: released_once_def)

lemma test_base_released: "released_once (test_base K e)"
  by (simp add: test_base_def Let_def released_once_Pair)

lemma base_test_close_released:
  "closes t = 0 \<Longrightarrow> handle e \<noteq> 0 \<Longrightarrow> released_once (base_test_close K e t)"
  by (simp add: base_test_close_def released_once_Pair)

lemma base_test_configure_released:
  "closes t = 0 \<Longrightarrow> handle e \<noteq> 0 \<Longrightarrow> released_once (base_test_configure K e t)"
  unfolding base_test_configure_def Let_def
  by (simp add: base_test_close_released released_once_Pair)

lemma base_test_released: "released_once (base_test K e)"
  unfolding base_test_def Let_def
  by (simp add: base_test_configure_released released_once_Pair)

lemma test_single_opencv_released:
  assumes "test_single_opencv K e = Some r"
  shows "released_once r"
proof -
  obtain t st where r: "r = (t, st)" by (cases r)
  from test_single_opencv_SomeD[OF assms[unfolded r]] show ?thesis
  proof (elim disjE exE conjE)
    assume init: "opencv_init K e (SINGLE_MODE K) = (t, Some st)"
    from init have "closes t = 0" using closes_opencv_init[of K e "SINGLE_MODE K"] by simp
    moreover from init have "st \<noteq> Exit 0" using opencv_init_not_0[of K e "SINGLE_MODE K" st] by simp
    ultimately show ?thesis by (simp add: r released_once_Pair)
  next
    fix t0 m
    assume init: "opencv_init K e (SINGLE_MODE K) = (t0, None)"
      and t: "t = t0 @ single_passes K e 0 (Suc m)
                @ [rc e CloseQHYCCD 0, rc e ReleaseQHYCCDResource 0]"
    from init have "closes t0 = 0" using closes_opencv_init[of K e "SINGLE_MODE K"] by simp
    with t show ?thesis
      by (simp add: r released_once_Pair del: single_passes.simps)
  qed
qed

lemma test_live_opencv_unreleased:
  assumes "test_live_opencv K e = Some (t, st)"
  shows "closes t = 0 \<and> (st = Exit 1 \<or> st = Killed \<and> memset_faults (mem_length e))"
proof -
  from test_live_opencv_SomeD[OF assms] have init: "opencv_init K e (LIVE_MODE K) = (t, Some st)" .
  from init have "closes t = 0" using closes_opencv_init[of K e "LIVE_MODE K"] by simp
  moreover from init have "st = Exit 1 \<or> st = Killed \<and> memset_faults (mem_length e)"
    using opencv_init_status[of K e "LIVE_MODE K" st] by simp
  ultimately show ?thesis by simp
qed

section \<open>Sample runs\<close>

lemma single_loop_e_ok:
  "single_loop K0 e_ok 0 t =
     Some (t @ snd (single_iter K0 e_ok 0) @ snd (single_iter K0 e_ok 1)
             @ snd (single_iter K0 e_ok 2))"
proof -
  have go0: "\<not> fst (single_iter K0 e_ok 0)" and go1: "\<not> fst (single_iter K0 e_ok (Suc 0))"
    and quit: "fst (single_iter K0 e_ok (Suc (Suc 0)))"
    by (simp_all add: single_iter_def e_ok_def)
  show ?thesis
    apply (subst single_loop.simps, simp add: go0)
    apply (subst single_loop.simps, simp add: go1)
    apply (subst single_loop.simps, simp add: quit numeral_2_eq_2)
    done
qed

lemma test_single_opencv_e_ok:
  "map_option snd (test_single_opencv K0 e_ok) = Some (Exit 0)"
proof -
  have "snd (opencv_init K0 e_ok (SINGLE_MODE K0)) = None"
    by (simp add: opencv_init_def Let_def memset_faults_def e_ok_def K0_def)
  then show ?thesis
    by (cases "opencv_init K0 e_ok (SINGLE_MODE K0)")
       (simp add: test_single_opencv_def single_loop_e_ok)
qed

lemma GetQHYCCDId_loop_e_ok:
  "GetQHYCCDId_loop K0 e_ok 0 1 =
     ([Call (GetQHYCCDId 0) (Code 0),
       Print ''connected to the first camera from the list,id is %s''], True)"
  by (subst GetQHYCCDId_loop.simps) (simp add: e_ok_def K0_def)

lemma base_test_e_ok: "snd (base_test K0 e_ok) = Exit 0"
proof -
  have "sint (scan_num e_ok) = 1" "sint (mem_length e_ok) = 307200" "handle e_ok = 1"
    "ret e_ok = (\<lambda>c k. 0)" "QHYCCD_SUCCESS K0 = 0" "QHYCCD_ERROR K0 = 0xFFFFFFFF"
    by (simp_all add: e_ok_def K0_def)
  then show ?thesis
    by (simp add: base_test_def base_test_configure_def base_test_close_def Let_def
        GetQHYCCDId_loop_e_ok)
qed

lemma test_base_e_ok: "snd (test_base K0 e_ok) = Exit 0"
  by (simp add: test_base_def Let_def memset_faults_def e_ok_def K0_def)

section \<open>The handle after its release\<close>

lemma calls_opencv_init:
  "set (calls (fst (opencv_init K e mode))) \<subseteq>
     {InitQHYCCDResource, EnableQHYCCDMessage True, ScanQHYCCD, GetQHYCCDId 0, OpenQHYCCD,
      SetQHYCCDReadMode 0, SetQHYCCDStreamMode mode, InitQHYCCD, SetQHYCCDBitsMode 8,
      GetQHYCCDChipInfo, SetQHYCCDResolution 0 0 (chip_w e) (chip_h e), GetQHYCCDMemLength,
      SetQHYCCDParam CONTROL_EXPOSURE}"
  by (simp add: opencv_init_def Let_def)

lemma no_use_after_close_none: "CloseQHYCCD \<notin> set cs \<Longrightarrow> no_use_after_close cs"
  using no_use_after_close_quiet[of cs "[]"] by simp

lemma unclosed_single_passes [simp]: "CloseQHYCCD \<notin> set (calls (single_passes K e n m))"
  using calls_single_passes[of K e n m] by auto

lemma unclosed_live_passes [simp]: "CloseQHYCCD \<notin> set (calls (live_passes K e n m))"
  using calls_live_passes[of K e n m] by auto

lemma unclosed_GetQHYCCDId_loop [simp]:
  "CloseQHYCCD \<notin> set (calls (fst (GetQHYCCDId_loop K e i num)))"
  using calls_GetQHYCCDId_loop[of K e i num] by auto

lemma unclosed_opencv_init [simp]: "CloseQHYCCD \<notin> set (calls (fst (opencv_init K e mode)))"
  using calls_opencv_init[of K e mode] by auto

lemma test_base_no_use: "no_use_after_close (calls (fst (test_base K e)))"
  by (simp add: test_base_def Let_def)

lemma base_test_close_no_use:
  "CloseQHYCCD \<notin> set (calls t) \<Longrightarrow> no_use_after_close (calls (fst (base_test_close K e t)))"
  by (simp add: base_test_close_def no_use_after_close_quiet)

lemma base_test_configure_no_use:
  "CloseQHYCCD \<notin> set (calls t) \<Longrightarrow>
   no_use_after_close (calls (fst (base_test_configure K e t)))"
  unfolding base_test_configure_def Let_def
  by (simp add: base_test_close_no_use no_use_after_close_quiet)

lemma base_test_no_use: "no_use_after_close (calls (fst (base_test K e)))"
  unfolding base_test_def Let_def
  by (simp add: base_test_configure_no_use no_use_after_close_none)

lemma test_single_opencv_no_use:
  assumes "test_single_opencv K e = Some r"
  shows "no_use_after_close (calls (fst r))"
proof -
  obtain t st where r: "r = (t, st)" by (cases r)
  from test_single_opencv_SomeD[OF assms[unfolded r]] show ?thesis
  proof (elim disjE exE conjE)
    assume "opencv_init K e (SINGLE_MODE K) = (t, Some st)"
    then have "CloseQHYCCD \<notin> set (calls t)"
      using unclosed_opencv_init[of K e "SINGLE_MODE K"] by simp
    then show ?thesis by (simp add: r no_use_after_close_none)
  next
    fix t0 m
    assume "opencv_init K e (SINGLE_MODE K) = (t0, None)"
      and t: "t = t0 @ single_passes K e 0 (Suc m)
                @ [rc e CloseQHYCCD 0, rc e ReleaseQHYCCDResource 0]"
    then have "CloseQHYCCD \<notin> set (calls t0)"
      using unclosed_opencv_init[of K e "SINGLE_MODE K"] by simp
    with t show ?thesis
      by (simp add: r no_use_after_close_quiet del: single_passes.simps)
  qed
qed

lemma test_live_opencv_no_use:
  assumes "test_live_opencv K e = Some r"
  shows "no_use_after_close (calls (fst r))"
proof -
  obtain t st where r: "r = (t, st)" by (cases r)
  from test_live_opencv_SomeD[OF assms[unfolded r]]
  have "CloseQHYCCD \<notin> set (calls t)"
    using unclosed_opencv_init[of K e "LIVE_MODE K"] by simp
  then show ?thesis by (simp add: r no_use_after_close_none)
qed

lemma prefix_no_use:
  "no_use_after_close (calls (single_prefix K e m))"
  "no_use_after_close (calls (live_prefix K e m))"
  by (simp_all add: single_prefix_def live_prefix_def no_use_after_close_none)


lemma test_live_opencv_e_none: "map_option snd (test_live_opencv K0 e_none) = Some (Exit 1)"
  by (simp add: test_live_opencv_def opencv_init_def e_none_def e_ok_def K0_def)

section \<open>Reading the frame buffer\<close>

lemma frames_guarded_no_show: "ShowFrame \<notin> set t \<Longrightarrow> frames_guarded K ok t"
proof (induction t arbitrary: ok)
  case Nil
  show ?case by simp
next
  case (Cons x t)
  then show ?case by (cases x) simp_all
qed

lemma no_show_helpers [simp]:
  "ShowFrame \<notin> set (SDKVersion e)" "ShowFrame \<notin> set (FirmWareVersion K e)"
  "ShowFrame \<notin> set (alloc_buffer len)" "ShowFrame \<notin> set (cooler_iter e i)"
  by (simp_all add: SDKVersion_def FirmWareVersion_def alloc_buffer_def cooler_iter_def)

lemma no_show_opencv_init [simp]: "ShowFrame \<notin> set (fst (opencv_init K e mode))"
  by (simp add: opencv_init_def Let_def)

lemma no_fetch_opencv_init: "\<forall>c \<in> set (calls (fst (opencv_init K e mode))). \<not> is_fetch c"
  using calls_opencv_init[of K e mode] by auto

lemma frames_guarded_opencv_init:
  "frames_guarded K ok (fst (opencv_init K e mode) @ r) = frames_guarded K ok r"
  by (rule frames_guarded_quiet[OF no_fetch_opencv_init no_show_opencv_init])

lemma test_base_no_show: "ShowFrame \<notin> set (fst (test_base K e))"
  by (simp add: test_base_def Let_def)

lemma base_test_close_no_show:
  "ShowFrame \<notin> set t \<Longrightarrow> ShowFrame \<notin> set (fst (base_test_close K e t))"
  by (simp add: base_test_close_def)

lemma base_test_configure_no_show:
  "ShowFrame \<notin> set t \<Longrightarrow> ShowFrame \<notin> set (fst (base_test_configure K e t))"
  unfolding base_test_configure_def Let_def
  by (simp add: base_test_close_no_show)

lemma base_test_no_show: "ShowFrame \<notin> set (fst (base_test K e))"
  unfolding base_test_def Let_def
  by (simp add: base_test_configure_no_show no_show_GetQHYCCDId_loop)

lemma frames_guarded_show_frame:
  "frames_guarded K ok (show_frame e n @ r) = (ok \<and> frames_guarded K ok r)"
  by (simp add: show_frame_def)

lemma frames_guarded_single_iter:
  "frames_guarded K ok (snd (single_iter K e n) @ r) =
     (if fst (single_iter K e n) then frames_guarded K ok r
      else frames_guarded K (ret e GetQHYCCDSingleFrame n = QHYCCD_SUCCESS K) r)"
  by (simp add: single_iter_def Let_def frames_guarded_show_frame)

lemma frames_guarded_live_iter:
  "frames_guarded K ok (live_iter K e n @ r) =
     frames_guarded K (ret e GetQHYCCDLiveFrame n = QHYCCD_SUCCESS K) r"
  by (simp add: live_iter_def frames_guarded_show_frame)

lemma frames_guarded_single_passes:
  "(\<And>ok. frames_guarded K ok r) \<Longrightarrow> frames_guarded K ok (single_passes K e n m @ r)"
  by (induction m arbitrary: n ok) (simp_all add: frames_guarded_single_iter)

lemma frames_guarded_live_passes:
  "(\<And>ok. frames_guarded K ok r) \<Longrightarrow> frames_guarded K ok (live_passes K e n m @ r)"
  by (induction m arbitrary: n ok) (simp_all add: frames_guarded_live_iter)

lemma test_single_opencv_guarded:
  assumes "test_single_opencv K e = Some r"
  shows "frames_guarded K False (fst r)"
proof -
  obtain t st where r: "r = (t, st)" by (cases r)
  from test_single_opencv_SomeD[OF assms[unfolded r]] show ?thesis
  proof (elim disjE exE conjE)
    assume "opencv_init K e (SINGLE_MODE K) = (t, Some st)"
    then have "ShowFrame \<notin> set t"
      using no_show_opencv_init[of K e "SINGLE_MODE K"] by simp
    then show ?thesis by (simp add: r frames_guarded_no_show)
  next
    fix t0 m
    assume init: "opencv_init K e (SINGLE_MODE K) = (t0, None)"
      and t: "t = t0 @ single_passes K e 0 (Suc m)
                @ [rc e CloseQHYCCD 0, rc e ReleaseQHYCCDResource 0]"
    from init have t0: "t0 = fst (opencv_init K e (SINGLE_MODE K))" by simp
    have rest: "frames_guarded K False
            (single_passes K e 0 (Suc m) @ [rc e CloseQHYCCD 0, rc e ReleaseQHYCCDResource 0])"
      by (rule frames_guarded_single_passes) simp
    show ?thesis
      unfolding r t t0 fst_conv frames_guarded_opencv_init by (rule rest)
  qed
qed

lemma test_live_opencv_guarded:
  assumes "test_live_opencv K e = Some r"
  shows "frames_guarded K False (fst r)"
proof -
  obtain t st where r: "r = (t, st)" by (cases r)
  from test_live_opencv_SomeD[OF assms[unfolded r]]
  have "ShowFrame \<notin> set t"
    using no_show_opencv_init[of K e "LIVE_MODE K"] by simp
  then show ?thesis by (simp add: r frames_guarded_no_show)
qed

lemma single_prefix_guarded: "frames_guarded K False (single_prefix K e m)"
proof -
  have "frames_guarded K False (single_passes K e 0 m @ [])"
    by (rule frames_guarded_single_passes) simp
  then show ?thesis
    by (simp add: single_prefix_def frames_guarded_opencv_init)
qed

lemma live_prefix_guarded: "frames_guarded K False (live_prefix K e m)"
proof -
  have "frames_guarded K False (live_passes K e 0 m @ [])"
    by (rule frames_guarded_live_passes) simp
  then have "frames_guarded K False (rc e BeginQHYCCDLive 0 # live_passes K e 0 m)"
    by simp
  then show ?thesis
    by (simp add: live_prefix_def frames_guarded_opencv_init)
qed

section \<open>The order of the calls\<close>

lemma runs_in_order_Pair:
  "runs_in_order (t, st) =
     (in_phase_order t \<and> none_after_release (calls t) \<and> (st = Exit 0 \<longrightarrow> ends_with_teardown t))"
  by (simp add: runs_in_order_def)

lemma runs_in_order_failure [simp]:
  "runs_in_order (failure t) = (in_phase_order t \<and> none_after_release (calls t))"
  by (simp add: runs_in_order_def in_phase_order_def)

lemma in_phase_order_after:
  assumes "in_order_upto p t" and "sorted (phases (calls r))"
    and "\<forall>y \<in> set (phases (calls r)). p \<le> y"
  shows "in_phase_order (t @ r)"
  using assms unfolding in_phase_order_def in_order_upto_def
  by (auto simp add: sorted_append intro: order_trans)

lemma none_after_release_after:
  "in_order_upto p t \<Longrightarrow> none_after_release (calls t @ cs) = none_after_release cs"
  by (simp add: in_order_upto_def none_after_release_quiet)

lemma ends_with_teardown_after:
  "2 \<le> length (calls r) \<Longrightarrow> ends_with_teardown (t @ r) = ends_with_teardown r"
  by (simp add: ends_with_teardown_def)

lemma in_order_upto_after:
  assumes "in_order_upto p t" and "sorted (phases (calls r))"
    and "\<forall>y \<in> set (phases (calls r)). p \<le> y \<and> y \<le> q"
    and "ReleaseQHYCCDResource \<notin> set (calls r)" and "p \<le> q"
  shows "in_order_upto q (t @ r)"
  using assms unfolding in_order_upto_def
  by (auto simp add: sorted_append intro: order_trans)

lemma phases_single_passes:
  "sorted (phases (calls (single_passes K e n m)))
   \<and> (\<forall>y \<in> set (phases (calls (single_passes K e n m))). y = 4)"
proof -
  have "\<forall>c \<in> set (calls (single_passes K e n m)). phase c = Some 4"
    using calls_single_passes[of K e n m] by auto
  from phases_same[OF this] show ?thesis by auto
qed

lemma phases_live_passes:
  "sorted (phases (calls (live_passes K e n m)))
   \<and> (\<forall>y \<in> set (phases (calls (live_passes K e n m))). y = 4)"
proof -
  have "\<forall>c \<in> set (calls (live_passes K e n m)). phase c = Some 4"
    using calls_live_passes[of K e n m] by auto
  from phases_same[OF this] show ?thesis by auto
qed

lemma phases_GetQHYCCDId_loop:
  "sorted (phases (calls (fst (GetQHYCCDId_loop K e i num))))
   \<and> (\<forall>y \<in> set (phases (calls (fst (GetQHYCCDId_loop K e i num)))). y = 1)"
proof -
  have "\<forall>c \<in> set (calls (fst (GetQHYCCDId_loop K e i num))). phase c = Some 1"
    using calls_GetQHYCCDId_loop[of K e i num] by auto
  from phases_same[OF this] show ?thesis by auto
qed

lemma unreleased_segments [simp]:
  "ReleaseQHYCCDResource \<notin> set (calls (single_passes K e n m))"
  "ReleaseQHYCCDResource \<notin> set (calls (live_passes K e n m))"
  "ReleaseQHYCCDResource \<notin> set (calls (fst (GetQHYCCDId_loop K e i num)))"
  "ReleaseQHYCCDResource \<notin> set (calls (fst (opencv_init K e mode)))"
  using calls_single_passes[of K e n m] calls_live_passes[of K e n m]
    calls_GetQHYCCDId_loop[of K e i num] calls_opencv_init[of K e mode]
  by auto

lemma opencv_init_in_order: "in_order_upto 3 (fst (opencv_init K e mode))"
  by (simp add: opencv_init_def Let_def in_order_upto_def)

lemma test_base_in_order: "runs_in_order (test_base K e)"
  by (simp add: test_base_def Let_def runs_in_order_Pair in_phase_order_def
      ends_with_teardown_def)

lemma base_test_close_in_order:
  assumes "in_order_upto 4 t" and "handle e \<noteq> 0"
  shows "runs_in_order (base_test_close K e t)"
proof -
  have order: "in_phase_order (t @ r)"
    if "sorted (phases (calls r))" "\<forall>y \<in> set (phases (calls r)). 4 \<le> y" for r
    using in_phase_order_after[OF assms(1) that] .
  show ?thesis
    using assms(2)
    by (simp add: base_test_close_def runs_in_order_Pair order
        none_after_release_after[OF assms(1)] ends_with_teardown_after)
       (simp add: ends_with_teardown_def)
qed

lemma base_test_configure_in_order:
  assumes "in_order_upto 3 t" and "handle e \<noteq> 0"
  shows "runs_in_order (base_test_configure K e t)"
proof -
  have order: "in_phase_order (t @ r)"
    if "sorted (phases (calls r))" "\<forall>y \<in> set (phases (calls r)). 3 \<le> y" for r
    using in_phase_order_after[OF assms(1) that] .
  have upto: "in_order_upto 4 (t @ r)"
    if "sorted (phases (calls r))" "\<forall>y \<in> set (phases (calls r)). 3 \<le> y \<and> y \<le> 4"
      "ReleaseQHYCCDResource \<notin> set (calls r)" for r
    using in_order_upto_after[OF assms(1) that] by simp
  show ?thesis
    unfolding base_test_configure_def Let_def
    using assms(2)
    by (simp add: runs_in_order_Pair order upto base_test_close_in_order
        none_after_release_after[OF assms(1)])
qed

lemma none_after_release_none:
  "ReleaseQHYCCDResource \<notin> set cs \<Longrightarrow> none_after_release cs"
  using none_after_release_quiet[of cs "[]"] by simp

lemma base_test_in_order: "runs_in_order (base_test K e)"
proof -
  let ?ids = "fst (GetQHYCCDId_loop K e 0 (sint (scan_num e)))"
  have ids: "sorted (phases (calls ?ids))" "\<forall>y \<in> set (phases (calls ?ids)). y = 1"
    using phases_GetQHYCCDId_loop[of K e 0 "sint (scan_num e)"] by simp_all
  have upto: "in_order_upto 3
    (SDKVersion e @ Call InitQHYCCDResource r1 # Call (EnableQHYCCDMessage False) r2 #
     Print a # Call ScanQHYCCD r3 # Print b # ?ids @ Call OpenQHYCCD r4 # Print c #
     Call (SetQHYCCDReadMode 4) r5 # FirmWareVersion K e @
     [Call (IsQHYCCDControlAvailable CAM_LIVEVIDEOMODE) r6])" for a b c r1 r2 r3 r4 r5 r6
    using ids by (auto simp add: in_order_upto_def sorted_append)
  show ?thesis
    unfolding base_test_def Let_def
    using ids
    by (auto simp add: runs_in_order_Pair upto base_test_configure_in_order
        in_phase_order_def sorted_append none_after_release_quiet none_after_release_none)
qed

lemma test_single_opencv_in_order:
  assumes "test_single_opencv K e = Some r"
  shows "runs_in_order r"
proof -
  obtain t st where r: "r = (t, st)" by (cases r)
  from test_single_opencv_SomeD[OF assms[unfolded r]] show ?thesis
  proof (elim disjE exE conjE)
    assume init: "opencv_init K e (SINGLE_MODE K) = (t, Some st)"
    then have "in_order_upto 3 t" "st \<noteq> Exit 0"
      using opencv_init_in_order[of K e "SINGLE_MODE K"]
        opencv_init_not_0[of K e "SINGLE_MODE K" st] by simp_all
    then show ?thesis
      by (simp add: r runs_in_order_Pair in_phase_order_def in_order_upto_def
          none_after_release_none)
  next
    fix t0 m
    assume init: "opencv_init K e (SINGLE_MODE K) = (t0, None)" and st: "st = Exit 0"
      and t: "t = t0 @ single_passes K e 0 (Suc m)
                @ [rc e CloseQHYCCD 0, rc e ReleaseQHYCCDResource 0]"
    from init have upto: "in_order_upto 3 t0"
      using opencv_init_in_order[of K e "SINGLE_MODE K"] by simp
    let ?r = "single_passes K e 0 (Suc m) @ [rc e CloseQHYCCD 0, rc e ReleaseQHYCCDResource 0]"
    have "sorted (phases (calls ?r))" "\<forall>y \<in> set (phases (calls ?r)). 3 \<le> y"
      using phases_single_passes[of K e 0 "Suc m"]
      by (auto simp add: sorted_append simp del: single_passes.simps)
    from in_phase_order_after[OF upto this] have "in_phase_order t"
      by (simp only: t)
    moreover have "none_after_release (calls t)"
      unfolding t calls_append none_after_release_after[OF upto]
      by (simp add: none_after_release_quiet del: single_passes.simps)
    moreover have "ends_with_teardown t"
      unfolding t by (simp add: ends_with_teardown_def del: single_passes.simps)
    ultimately show ?thesis by (simp add: r runs_in_order_Pair)
  qed
qed

lemma prefixes_in_order:
  "in_phase_order (single_prefix K e m) \<and> none_after_release (calls (single_prefix K e m))"
  "in_phase_order (live_prefix K e m) \<and> none_after_release (calls (live_prefix K e m))"
proof -
  have "in_order_upto 4 (single_prefix K e m)"
    unfolding single_prefix_def
    using phases_single_passes[of K e 0 m]
    by (intro in_order_upto_after[OF opencv_init_in_order]) auto
  then show "in_phase_order (single_prefix K e m)
             \<and> none_after_release (calls (single_prefix K e m))"
    by (simp add: in_order_upto_def in_phase_order_def none_after_release_none)
  have "in_order_upto 4 (live_prefix K e m)"
    unfolding live_prefix_def
    using phases_live_passes[of K e 0 m]
    by (intro in_order_upto_after[OF opencv_init_in_order]) auto
  then show "in_phase_order (live_prefix K e m)
             \<and> none_after_release (calls (live_prefix K e m))"
    by (simp add: in_order_upto_def in_phase_order_def none_after_release_none)
qed

lemma test_live_opencv_in_order:
  assumes "test_live_opencv K e = Some r"
  shows "in_phase_order (fst r) \<and> none_after_release (calls (fst r)) \<and> snd r \<noteq> Exit 0"
proof -
  obtain t st where r: "r = (t, st)" by (cases r)
  from test_live_opencv_SomeD[OF assms[unfolded r]]
  have "in_order_upto 3 t" "st \<noteq> Exit 0"
    using opencv_init_in_order[of K e "LIVE_MODE K"]
      opencv_init_not_0[of K e "LIVE_MODE K" st] by simp_all
  then show ?thesis
    by (simp add: r in_phase_order_def in_order_upto_def none_after_release_none)
qed

lemma test_base_e_res_fail:
  "test_base K0 e_res_fail =
     ([Call GetQHYCCDSDKVersion (Code 0), Print ''SDK Version: %d.%d.%d_%d'',
       Call InitQHYCCDResource (Code 0), Call (EnableQHYCCDMessage True) Void,
       Call ScanQHYCCD (Count 1), Print ''Found %d cameras'',
       Call (GetQHYCCDId 0) (Code 0),
       Print ''connected to the first camera from the list,id is %s'',
       Call OpenQHYCCD (Handle 1), Call GetQHYCCDFWVersion (Code 0),
       PrintVersion (test_base_fwv_version (fwv e_ok)),
       Call (SetQHYCCDReadMode 0) (Code 0), Call (SetQHYCCDStreamMode 1) (Code 0),
       Call InitQHYCCD (Code 0), Call (SetQHYCCDBitsMode 8) (Code 0),
       Call GetQHYCCDChipInfo (Code 0), Print ''CCD/CMOS chip information:'',
       Print ''Chip width %3f mm,Chip height %3f mm'',
       Print ''Chip pixel width %3f um,Chip pixel height %3f um'',
       Print ''Chip Max Resolution is %d x %d,depth is %d'',
       Call (SetQHYCCDResolution 0 0 640 480) (Code 0xFFFFFFFF),
       Print ''SetQHYCCDResolution fail''], Exit 1)"
  by (simp add: test_base_def e_res_fail_def e_ok_def K0_def)

section \<open>The frame buffer\<close>

lemma mallocs_helpers [simp]:
  "mallocs (SDKVersion e) = []" "mallocs (FirmWareVersion K e) = []"
  "mallocs (alloc_buffer len) = [scast len]"
  "mallocs (concat (map (cooler_iter e) [0..<4])) = []"
  by (simp_all add: SDKVersion_def FirmWareVersion_def alloc_buffer_def cooler_iter_def upt_4)

lemma allocates_once_Pair:
  "allocates_once e (t, st) =
     ((mallocs t = [] \<or> mallocs t = [scast (mem_length e)])
      \<and> (mallocs t \<noteq> [] \<longrightarrow> Call GetQHYCCDMemLength (Len (mem_length e)) \<in> set t)
      \<and> (st = Exit 0 \<longrightarrow> mallocs t \<noteq> []))"
  by (simp add: allocates_once_def)

lemma allocates_once_failure [simp]:
  "allocates_once e (failure t) =
     ((mallocs t = [] \<or> mallocs t = [scast (mem_length e)])
      \<and> (mallocs t \<noteq> [] \<longrightarrow> Call GetQHYCCDMemLength (Len (mem_length e)) \<in> set t))"
  by (simp add: allocates_once_def)

lemma test_base_allocates: "allocates_once e (test_base K e)"
  by (simp add: test_base_def Let_def allocates_once_Pair)

lemma base_test_close_allocates:
  "mallocs t = [scast (mem_length e)] \<Longrightarrow> Call GetQHYCCDMemLength (Len (mem_length e)) \<in> set t
   \<Longrightarrow> allocates_once e (base_test_close K e t)"
  by (simp add: base_test_close_def allocates_once_Pair)

lemma base_test_configure_allocates:
  "mallocs t = [] \<Longrightarrow> allocates_once e (base_test_configure K e t)"
  unfolding base_test_configure_def Let_def
  by (simp add: base_test_close_allocates allocates_once_Pair)

lemma base_test_allocates: "allocates_once e (base_test K e)"
  unfolding base_test_def Let_def
  by (simp add: base_test_configure_allocates allocates_once_Pair)

lemma opencv_init_mallocs:
  "mallocs (fst (opencv_init K e mode)) = [] \<or>
   (mallocs (fst (opencv_init K e mode)) = [scast (mem_length e)]
    \<and> Call GetQHYCCDMemLength (Len (mem_length e)) \<in> set (fst (opencv_init K e mode)))"
  by (simp add: opencv_init_def Let_def)

lemma opencv_init_enters:
  "snd (opencv_init K e mode) = None \<Longrightarrow>
   mallocs (fst (opencv_init K e mode)) = [scast (mem_length e)]"
  by (simp add: opencv_init_def Let_def split: if_splits)

lemma test_single_opencv_allocates:
  assumes "test_single_opencv K e = Some r"
  shows "allocates_once e r"
proof -
  obtain t st where r: "r = (t, st)" by (cases r)
  from test_single_opencv_SomeD[OF assms[unfolded r]] show ?thesis
  proof (elim disjE exE conjE)
    assume init: "opencv_init K e (SINGLE_MODE K) = (t, Some st)"
    then have "st \<noteq> Exit 0" using opencv_init_not_0[of K e "SINGLE_MODE K" st] by simp
    with init opencv_init_mallocs[of K e "SINGLE_MODE K"] show ?thesis
      by (auto simp add: r allocates_once_Pair)
  next
    fix t0 m
    assume init: "opencv_init K e (SINGLE_MODE K) = (t0, None)"
      and t: "t = t0 @ single_passes K e 0 (Suc m)
                @ [rc e CloseQHYCCD 0, rc e ReleaseQHYCCDResource 0]"
    from init opencv_init_enters[of K e "SINGLE_MODE K"]
    have m: "mallocs t0 = [scast (mem_length e)]" by simp
    with init opencv_init_mallocs[of K e "SINGLE_MODE K"]
    have "Call GetQHYCCDMemLength (Len (mem_length e)) \<in> set t0" by simp
    with m t show ?thesis
      by (simp add: r allocates_once_Pair del: single_passes.simps)
  qed
qed

lemma test_live_opencv_allocates:
  assumes "test_live_opencv K e = Some r"
  shows "allocates_once e r"
proof -
  obtain t st where r: "r = (t, st)" by (cases r)
  from test_live_opencv_SomeD[OF assms[unfolded r]]
  have init: "opencv_init K e (LIVE_MODE K) = (t, Some st)" .
  then have "st \<noteq> Exit 0" using opencv_init_not_0[of K e "LIVE_MODE K" st] by simp
  with init opencv_init_mallocs[of K e "LIVE_MODE K"] show ?thesis
    by (auto simp add: r allocates_once_Pair)
qed

lemma prefix_mallocs:
  "mallocs (single_prefix K e m) = [] \<or> mallocs (single_prefix K e m) = [scast (mem_length e)]"
  "mallocs (live_prefix K e m) = [] \<or> mallocs (live_prefix K e m) = [scast (mem_length e)]"
  using opencv_init_mallocs[of K e "SINGLE_MODE K"] opencv_init_mallocs[of K e "LIVE_MODE K"]
  by (auto simp add: single_prefix_def live_prefix_def)

lemma sint_nonneg_uint:
  assumes "0 \<le> sint (len :: u32)"
  shows "sint len = uint len"
proof -
  have "sint len < 2 ^ 32" using sint_lt[of len] by simp
  with assms have "take_bit 32 (sint len) = sint len"
    by (simp add: take_bit_int_eq_self)
  moreover have "uint len = take_bit 32 (sint len)"
    using uint_sint[of len] by simp
  ultimately show ?thesis by simp
qed

lemma size_t_of_length:
  assumes "0 \<le> sint (len :: u32)"
  shows "uint (scast len :: u64) = uint len"
proof -
  have "uint len < 2 ^ 64" using uint_bounded[of len] by simp
  with uint_ge_0[of len] have "take_bit 64 (uint len) = uint len"
    by (simp add: take_bit_int_eq_self)
  moreover have "uint (scast len :: u64) = take_bit 64 (sint len)"
    unfolding scast_eq uint_word_of_int_eq by simp
  ultimately show ?thesis by (simp add: sint_nonneg_uint[OF assms])
qed

lemma base_test_configure_guarded:
  "mallocs t = [] \<Longrightarrow> allocation_guarded e (base_test_configure K e t)"
  unfolding base_test_configure_def Let_def
  by (simp add: allocation_guarded_def)

lemma base_test_guarded: "allocation_guarded e (base_test K e)"
proof (cases "0 < sint (mem_length e)")
  case True
  then show ?thesis by (simp add: allocation_guarded_def)
next
  case False
  have stage: "mallocs (fst (base_test_configure K e t)) = [] \<and> snd (base_test_configure K e t) = Exit 1"
    if "mallocs t = []" for t
    using base_test_configure_guarded[OF that, of e K] False
    by (simp add: allocation_guarded_def)
  from False show ?thesis
    unfolding base_test_def Let_def
    by (simp add: allocation_guarded_def stage)
qed

section \<open>Failing calls\<close>


lemma after_failure_none:
  "\<forall>c \<in> set (calls t). \<not> chk c \<Longrightarrow> after_failure K chk t = None"
  using after_failure_quiet[of t chk K "[]"] by simp

lemma after_failure_helpers [simp]:
  "after_failure K is_SetQHYCCDResolution (alloc_buffer len) = None"
  "after_failure K base_test_fatal (alloc_buffer len) = None"
  "after_failure K base_test_fatal (SDKVersion e) = None"
  "after_failure K base_test_fatal (FirmWareVersion K e) = None"
  "after_failure K base_test_fatal (concat (map (cooler_iter e) [0..<4])) = None"
  "after_failure K base_test_fatal (fst (GetQHYCCDId_loop K e i num)) = None"
  "after_failure K is_SetQHYCCDResolution (single_passes K e n m) = None"
  using calls_GetQHYCCDId_loop[of K e i num] calls_single_passes[of K e n m]
  by (auto intro!: after_failure_none simp add: base_test_fatal_def)
























lemma opencv_init_enters_iff:
  "snd (opencv_init K e mode) =
     (if small_checks_pass K e \<and> \<not> memset_faults (mem_length e) then None
      else Some (small_status K e))"
  by (simp add: opencv_init_def Let_def small_status_def small_checks_pass_def)



lemma test_single_opencv_status:
  assumes "test_single_opencv K e = Some r"
  shows "snd r = small_status K e"
proof -
  obtain t st where r: "r = (t, st)" by (cases r)
  from test_single_opencv_SomeD[OF assms[unfolded r]] show ?thesis
    using opencv_init_enters_iff[of K e "SINGLE_MODE K"]
    by (auto simp add: r small_status_def split: if_splits)
qed



section \<open>The interactive loop as a whole\<close>

lemma single_loop_first_quit:
  assumes "\<forall>k<m. \<not> fst (single_iter K e (n + k))" and "fst (single_iter K e (n + m))"
  shows "single_loop K e n t = Some (t @ single_passes K e n (Suc m))"
  using assms
proof (induction m arbitrary: n t)
  case 0
  then show ?case by (subst single_loop.simps) simp
next
  case (Suc m)
  from Suc.prems(1) have go: "\<not> fst (single_iter K e n)" by force
  have later: "\<forall>k<m. \<not> fst (single_iter K e (Suc n + k))"
  proof (intro allI impI)
    fix k assume "k < m"
    with Suc.prems(1) have "\<not> fst (single_iter K e (n + Suc k))" by blast
    then show "\<not> fst (single_iter K e (Suc n + k))" by simp
  qed
  from Suc.prems(2) have "fst (single_iter K e (Suc n + m))" by simp
  from Suc.IH[OF later this]
  have "single_loop K e (Suc n) (t @ snd (single_iter K e n)) =
          Some ((t @ snd (single_iter K e n)) @ single_passes K e (Suc n) (Suc m))" .
  with go show ?case by (subst single_loop.simps) simp
qed

lemma calls_single_passes_first_quit:
  assumes "\<forall>k<m. \<not> fst (single_iter K e (n + k))" and "fst (single_iter K e (n + m))"
  shows "calls (single_passes K e n (Suc m)) =
           concat (replicate m [ExpQHYCCDSingleFrame, GetQHYCCDSingleFrame])"
  using assms
proof (induction m arbitrary: n)
  case 0
  then show ?case by (simp add: calls_single_iter)
next
  case (Suc m)
  from Suc.prems(1) have go: "\<not> fst (single_iter K e n)" by force
  have later: "\<forall>k<m. \<not> fst (single_iter K e (Suc n + k))"
  proof (intro allI impI)
    fix k assume "k < m"
    with Suc.prems(1) have "\<not> fst (single_iter K e (n + Suc k))" by blast
    then show "\<not> fst (single_iter K e (Suc n + k))" by simp
  qed
  from Suc.prems(2) have "fst (single_iter K e (Suc n + m))" by simp
  from Suc.IH[OF later this] go show ?case
    by (simp add: calls_single_iter)
qed

section \<open>Checks that end a run\<close>


lemma after_failure_other [simp]:
  "after_failure K (is_call (SetQHYCCDBitsMode b)) (SDKVersion e) = None"
  "after_failure K (is_call (SetQHYCCDBitsMode b)) (FirmWareVersion K e) = None"
  "after_failure K (is_call (SetQHYCCDBitsMode b)) (fst (GetQHYCCDId_loop K e i num)) = None"
  "after_failure K (is_call (IsQHYCCDControlAvailable x)) (SDKVersion e) = None"
  "after_failure K (is_call (IsQHYCCDControlAvailable x)) (FirmWareVersion K e) = None"
  "after_failure K (is_call (IsQHYCCDControlAvailable x)) (fst (GetQHYCCDId_loop K e i num)) = None"
  "after_failure K (is_call InitQHYCCDResource) (SDKVersion e) = None"
  using calls_GetQHYCCDId_loop[of K e i num]
  by (auto intro!: after_failure_none simp add: is_call_def)













section \<open>The claims\<close>

subsection \<open>Firmware version\<close>



subsection \<open>The live loop\<close>

text \<open>
  Claim C8. The acquisition loop of \<open>test_live_opencv\<close> has no way out: whatever
  the frame fetches return, it never ends. A run that gets into the loop does not
  return, so the \<open>StopQHYCCDLive\<close>, \<open>CloseQHYCCD\<close> and
  \<open>ReleaseQHYCCDResource\<close> calls behind the loop are never made: a run that ends
  has ended before the loop, with status 1 or killed in \<open>memset\<close> with a negative
  length, and has made none of them; and the passes of the loop only fetch frames.
\<close>
theorem live_loop_never_returns:
  "live_loop K e n t = None
   \<and> (snd (opencv_init K e (LIVE_MODE K)) = None \<longrightarrow> test_live_opencv K e = None)
   \<and> (\<forall>t' st. test_live_opencv K e = Some (t', st) \<longrightarrow>
         (st = Exit 1 \<or> st = Killed \<and> memset_faults (mem_length e))
         \<and> StopQHYCCDLive \<notin> set (calls t') \<and> CloseQHYCCD \<notin> set (calls t')
         \<and> ReleaseQHYCCDResource \<notin> set (calls t'))
   \<and> set (calls (live_passes K e n m)) \<subseteq> {GetQHYCCDLiveFrame}"
proof (intro conjI allI impI)
  show "live_loop K e n t = None" by (rule live_loop_None)
next
  assume "snd (opencv_init K e (LIVE_MODE K)) = None"
  then show "test_live_opencv K e = None"
    by (cases "opencv_init K e (LIVE_MODE K)") (simp add: test_live_opencv_def live_loop_None)
next
  fix t' st
  assume run: "test_live_opencv K e = Some (t', st)"
  then have init: "opencv_init K e (LIVE_MODE K) = (t', Some st)"
    by (simp add: test_live_opencv_def live_loop_None split: prod.splits option.splits)
  from init show "st = Exit 1 \<or> st = Killed \<and> memset_faults (mem_length e)"
    by (auto simp add: opencv_init_def Let_def split: if_splits)
  from init show "StopQHYCCDLive \<notin> set (calls t')"
    by (auto simp add: opencv_init_def Let_def split: if_splits)
  from init show "CloseQHYCCD \<notin> set (calls t')"
    by (auto simp add: opencv_init_def Let_def split: if_splits)
  from init show "ReleaseQHYCCDResource \<notin> set (calls t')"
    by (auto simp add: opencv_init_def Let_def split: if_splits)
next
  show "set (calls (live_passes K e n m)) \<subseteq> {GetQHYCCDLiveFrame}"
    by (rule calls_live_passes)
qed

theorem live_loop_never_returns_witness:
  "snd (opencv_init K0 e_ok (LIVE_MODE K0)) = None \<and> test_live_opencv K0 e_ok = None
   \<and> test_live_opencv K0 e_none =
       Some ([Call InitQHYCCDResource (Code 0), Call (EnableQHYCCDMessage True) Void,
              Call ScanQHYCCD (Count 0), Print ''Found %d cameras'', Print ''No camera found''], Exit 1)
   \<and> CloseQHYCCD \<notin> set (calls (fst (the (test_live_opencv K0 e_none))))"
proof -
  have enters: "snd (opencv_init K0 e_ok (LIVE_MODE K0)) = None"
    by (simp add: opencv_init_def Let_def memset_faults_def e_ok_def K0_def)
  have stops: "test_live_opencv K0 e_none =
       Some ([Call InitQHYCCDResource (Code 0), Call (EnableQHYCCDMessage True) Void,
              Call ScanQHYCCD (Count 0), Print ''Found %d cameras'', Print ''No camera found''], Exit 1)"
    by (simp add: test_live_opencv_def opencv_init_def e_none_def e_ok_def K0_def)
  from live_loop_never_returns[of K0 e_ok 0 "[]" 0] enters
  have "test_live_opencv K0 e_ok = None" by blast
  moreover from live_loop_never_returns[of K0 e_none 0 "[]" 0] stops
  have "CloseQHYCCD \<notin> set (calls (fst (the (test_live_opencv K0 e_none))))" by simp
  ultimately show ?thesis using enters stops by simp
qed

subsection \<open>The interactive loop\<close>

text \<open>
  Claim C10. A pass of the loop of \<open>test_single_opencv\<close> leaves the loop exactly
  when the character read is \<open>q\<close> or \<open>Q\<close>, and then makes no SDK call; for any
  other character the pass makes one \<open>ExpQHYCCDSingleFrame\<close> call followed by one
  \<open>GetQHYCCDSingleFrame\<close> call, and the loop goes on with the next pass. So when pass
  \<open>n + m\<close> is the first to read \<open>q\<close> or \<open>Q\<close>, the loop returns after \<open>m\<close>
  such pairs of calls.
\<close>
theorem single_loop_quits_on_q:
  "fst (single_iter K e n) = (input e n = CHR ''q'' \<or> input e n = CHR ''Q'')
   \<and> (fst (single_iter K e n) \<longrightarrow>
        calls (snd (single_iter K e n)) = []
        \<and> single_loop K e n t = Some (t @ snd (single_iter K e n)))
   \<and> (\<not> fst (single_iter K e n) \<longrightarrow>
        calls (snd (single_iter K e n)) = [ExpQHYCCDSingleFrame, GetQHYCCDSingleFrame]
        \<and> single_loop K e n t = single_loop K e (Suc n) (t @ snd (single_iter K e n)))
   \<and> ((\<forall>k<m. \<not> fst (single_iter K e (n + k))) \<and> fst (single_iter K e (n + m)) \<longrightarrow>
        single_loop K e n t = Some (t @ single_passes K e n (Suc m))
        \<and> calls (single_passes K e n (Suc m)) =
            concat (replicate m [ExpQHYCCDSingleFrame, GetQHYCCDSingleFrame]))"
proof (intro conjI impI)
  show "fst (single_iter K e n) = (input e n = CHR ''q'' \<or> input e n = CHR ''Q'')"
    by (simp add: single_iter_def Let_def)
next
  assume "fst (single_iter K e n)"
  then show "calls (snd (single_iter K e n)) = []"
    and "single_loop K e n t = Some (t @ snd (single_iter K e n))"
    by (simp_all add: calls_single_iter single_loop.simps[of K e n t])
next
  assume "\<not> fst (single_iter K e n)"
  then show "calls (snd (single_iter K e n)) = [ExpQHYCCDSingleFrame, GetQHYCCDSingleFrame]"
    and "single_loop K e n t = single_loop K e (Suc n) (t @ snd (single_iter K e n))"
    by (simp_all add: calls_single_iter single_loop.simps[of K e n t])
next
  assume first: "(\<forall>k<m. \<not> fst (single_iter K e (n + k))) \<and> fst (single_iter K e (n + m))"
  then show "single_loop K e n t = Some (t @ single_passes K e n (Suc m))"
    by (intro single_loop_first_quit) simp_all
  from first show "calls (single_passes K e n (Suc m)) =
      concat (replicate m [ExpQHYCCDSingleFrame, GetQHYCCDSingleFrame])"
    by (intro calls_single_passes_first_quit) simp_all
qed

theorem single_loop_quits_on_q_witness:
  "\<not> fst (single_iter K0 e_ok 0) \<and> fst (single_iter K0 e_ok 2)
   \<and> calls (snd (single_iter K0 e_ok 0)) = [ExpQHYCCDSingleFrame, GetQHYCCDSingleFrame]
   \<and> single_loop K0 e_ok 2 [] =
       Some [Print ''q = quit      any = continue'', Input CHR ''q'', Print ''quit'']
   \<and> \<not> fst (single_iter K0 e_ok 1)
   \<and> single_loop K0 e_ok 0 [] = Some (single_passes K0 e_ok 0 3)
   \<and> calls (single_passes K0 e_ok 0 3) =
       [ExpQHYCCDSingleFrame, GetQHYCCDSingleFrame, ExpQHYCCDSingleFrame, GetQHYCCDSingleFrame]"
proof -
  have go: "\<not> fst (single_iter K0 e_ok 0)" by (simp add: single_iter_def e_ok_def)
  have quit: "fst (single_iter K0 e_ok 2)" by (simp add: single_iter_def e_ok_def)
  have ev: "snd (single_iter K0 e_ok 2) =
      [Print ''q = quit      any = continue'', Input CHR ''q'', Print ''quit'']"
    by (simp add: single_iter_def e_ok_def)
  have go1: "\<not> fst (single_iter K0 e_ok 1)" by (simp add: single_iter_def e_ok_def)
  have first: "(\<forall>k<2. \<not> fst (single_iter K0 e_ok (0 + k))) \<and> fst (single_iter K0 e_ok (0 + 2))"
    by (simp add: single_iter_def e_ok_def)
  from single_loop_quits_on_q[of K0 e_ok 0 "[]" 0] go
  have "calls (snd (single_iter K0 e_ok 0)) = [ExpQHYCCDSingleFrame, GetQHYCCDSingleFrame]"
    by blast
  moreover from single_loop_quits_on_q[of K0 e_ok 2 "[]" 0] quit
  have "single_loop K0 e_ok 2 [] = Some ([] @ snd (single_iter K0 e_ok 2))" by blast
  moreover from single_loop_quits_on_q[of K0 e_ok 0 "[]" 2] first
  have "single_loop K0 e_ok 0 [] = Some ([] @ single_passes K0 e_ok 0 (Suc 2))"
    and "calls (single_passes K0 e_ok 0 (Suc 2)) =
      concat (replicate 2 [ExpQHYCCDSingleFrame, GetQHYCCDSingleFrame])" by blast+
  ultimately show ?thesis using go go1 quit ev
    by (simp add: numeral_2_eq_2 numeral_3_eq_3)
qed

subsection \<open>Releasing the handle\<close>

text \<open>
  Claim C1 as stated fails: when \<open>SetQHYCCDResolution\<close> fails, \<open>test_base\<close>
  has opened the camera and returns 1 without any \<open>CloseQHYCCD\<close>.
\<close>
theorem handle_unreleased_counterexample:
  "opened (fst (test_base K0 e_res_fail)) \<and> closes (fst (test_base K0 e_res_fail)) = 0
   \<and> snd (test_base K0 e_res_fail) = Exit 1"
  by (simp add: test_base_def e_res_fail_def e_ok_def K0_def)

text \<open>
  Claim C1, amended. In \<open>test_base\<close>, \<open>test_single_opencv\<close> and \<open>base_test\<close>,
  on every path on which the program ends \<open>CloseQHYCCD\<close> is called at most once,
  and exactly once when the exit status is 0. A run of \<open>test_live_opencv\<close> that
  ends has status 1, or is killed in \<open>memset\<close> with a negative length, and has called
  \<open>CloseQHYCCD\<close> at most once.
\<close>

theorem handle_released_once:
  "released_once (test_base K e) \<and> released_once (base_test K e)
   \<and> (\<forall>r. test_single_opencv K e = Some r \<longrightarrow> released_once r)
   \<and> (\<forall>r. test_live_opencv K e = Some r \<longrightarrow>
         closes (fst r) \<le> 1
         \<and> (snd r = Exit 1 \<or> snd r = Killed \<and> memset_faults (mem_length e)))"
proof (intro conjI allI impI)
  show "released_once (test_base K e)" by (rule test_base_released)
  show "released_once (base_test K e)" by (rule base_test_released)
next
  fix r assume "test_single_opencv K e = Some r"
  then show "released_once r" by (rule test_single_opencv_released)
next
  fix r assume "test_live_opencv K e = Some r"
  then have "closes (fst r) = 0
      \<and> (snd r = Exit 1 \<or> snd r = Killed \<and> memset_faults (mem_length e))"
    by (cases r) (simp add: test_live_opencv_unreleased)
  then show "closes (fst r) \<le> 1"
    and "snd r = Exit 1 \<or> snd r = Killed \<and> memset_faults (mem_length e)" by simp_all
qed

theorem handle_released_once_witness:
  "snd (test_base K0 e_ok) = Exit 0 \<and> closes (fst (test_base K0 e_ok)) = 1
   \<and> snd (base_test K0 e_ok) = Exit 0 \<and> closes (fst (base_test K0 e_ok)) = 1
   \<and> map_option snd (test_single_opencv K0 e_ok) = Some (Exit 0)
   \<and> map_option (closes \<circ> fst) (test_single_opencv K0 e_ok) = Some 1
   \<and> map_option snd (test_live_opencv K0 e_none) = Some (Exit 1)"
proof -
  note all = handle_released_once[of K0 e_ok]
  from all test_base_e_ok have "closes (fst (test_base K0 e_ok)) = 1"
    by (simp add: released_once_def)
  moreover from all base_test_e_ok have "closes (fst (base_test K0 e_ok)) = 1"
    by (simp add: released_once_def)
  moreover from all test_single_opencv_e_ok
  have "map_option (closes \<circ> fst) (test_single_opencv K0 e_ok) = Some 1"
    by (cases "test_single_opencv K0 e_ok") (auto simp add: released_once_def)
  moreover have "map_option snd (test_live_opencv K0 e_none) = Some (Exit 1)"
    using handle_released_once[of K0 e_none]
    by (simp add: test_live_opencv_def opencv_init_def e_none_def e_ok_def K0_def)
  ultimately show ?thesis
    using test_base_e_ok base_test_e_ok test_single_opencv_e_ok by simp
qed

subsection \<open>Reading the frame buffer\<close>

text \<open>
  Claim C5. In every program the frame buffer is shown only when the latest frame
  fetch (\<open>GetQHYCCDLiveFrame\<close> or \<open>GetQHYCCDSingleFrame\<close>) has returned
  \<open>QHYCCD_SUCCESS\<close>, never before the first such fetch; and a pass of a loop whose
  fetch does not return success does not show the buffer.
\<close>
theorem frame_read_only_after_successful_fetch:
  "frames_guarded K False (fst (test_base K e))
   \<and> frames_guarded K False (fst (base_test K e))
   \<and> (\<forall>r. test_single_opencv K e = Some r \<longrightarrow> frames_guarded K False (fst r))
   \<and> (\<forall>r. test_live_opencv K e = Some r \<longrightarrow> frames_guarded K False (fst r))
   \<and> frames_guarded K False (single_prefix K e m)
   \<and> frames_guarded K False (live_prefix K e m)
   \<and> (ret e GetQHYCCDSingleFrame n \<noteq> QHYCCD_SUCCESS K \<longrightarrow>
        ShowFrame \<notin> set (snd (single_iter K e n)))
   \<and> (ret e GetQHYCCDLiveFrame n \<noteq> QHYCCD_SUCCESS K \<longrightarrow>
        ShowFrame \<notin> set (live_iter K e n))"
proof (intro conjI allI impI)
  show "frames_guarded K False (fst (test_base K e))"
    by (simp add: frames_guarded_no_show test_base_no_show)
  show "frames_guarded K False (fst (base_test K e))"
    by (simp add: frames_guarded_no_show base_test_no_show)
  show "frames_guarded K False (single_prefix K e m)" by (rule single_prefix_guarded)
  show "frames_guarded K False (live_prefix K e m)" by (rule live_prefix_guarded)
next
  fix r assume "test_single_opencv K e = Some r"
  then show "frames_guarded K False (fst r)" by (rule test_single_opencv_guarded)
next
  fix r assume "test_live_opencv K e = Some r"
  then show "frames_guarded K False (fst r)" by (rule test_live_opencv_guarded)
next
  assume "ret e GetQHYCCDSingleFrame n \<noteq> QHYCCD_SUCCESS K"
  then show "ShowFrame \<notin> set (snd (single_iter K e n))"
    by (simp add: single_iter_def Let_def)
next
  assume "ret e GetQHYCCDLiveFrame n \<noteq> QHYCCD_SUCCESS K"
  then show "ShowFrame \<notin> set (live_iter K e n)"
    by (simp add: live_iter_def)
qed

theorem frame_read_only_after_successful_fetch_witness:
  "ret e_fetch_fail GetQHYCCDSingleFrame 0 \<noteq> QHYCCD_SUCCESS K0
   \<and> ShowFrame \<notin> set (snd (single_iter K0 e_fetch_fail 0))
   \<and> ret e_fetch_fail GetQHYCCDLiveFrame 0 \<noteq> QHYCCD_SUCCESS K0
   \<and> ShowFrame \<notin> set (live_iter K0 e_fetch_fail 0)
   \<and> ShowFrame \<in> set (single_prefix K0 e_ok 1)
   \<and> frames_guarded K0 False (single_prefix K0 e_ok 1)
   \<and> test_single_opencv K0 e_ok \<noteq> None
   \<and> frames_guarded K0 False (fst (the (test_single_opencv K0 e_ok)))
   \<and> test_live_opencv K0 e_none \<noteq> None
   \<and> frames_guarded K0 False (fst (the (test_live_opencv K0 e_none)))"
proof -
  have fails: "ret e_fetch_fail GetQHYCCDSingleFrame 0 \<noteq> QHYCCD_SUCCESS K0"
    "ret e_fetch_fail GetQHYCCDLiveFrame 0 \<noteq> QHYCCD_SUCCESS K0"
    by (simp_all add: e_fetch_fail_def e_ok_def K0_def)
  have shown: "ShowFrame \<in> set (single_prefix K0 e_ok 1)"
    by (simp add: single_prefix_def single_iter_def show_frame_def e_ok_def K0_def)
  obtain r where single: "test_single_opencv K0 e_ok = Some r"
    using test_single_opencv_e_ok by (cases "test_single_opencv K0 e_ok") auto
  obtain r' where live: "test_live_opencv K0 e_none = Some r'"
    using test_live_opencv_e_none by (cases "test_live_opencv K0 e_none") auto
  from frame_read_only_after_successful_fetch[of K0 e_fetch_fail 0 0] fails
  have "ShowFrame \<notin> set (snd (single_iter K0 e_fetch_fail 0))"
    and "ShowFrame \<notin> set (live_iter K0 e_fetch_fail 0)" by blast+
  moreover from frame_read_only_after_successful_fetch[of K0 e_ok 1 0] single
  have "frames_guarded K0 False (single_prefix K0 e_ok 1)"
    and "frames_guarded K0 False (fst r)" by blast+
  moreover from frame_read_only_after_successful_fetch[of K0 e_none 0 0] live
  have "frames_guarded K0 False (fst r')" by blast
  ultimately show ?thesis using fails shown single live by simp
qed

subsection \<open>The handle after its release\<close>

text \<open>
  Claim C6. In every program the handle is never passed to an SDK call after
  \<open>CloseQHYCCD\<close>: on every path, the calls that follow \<open>CloseQHYCCD\<close> are calls
  that take no handle. This holds for every run that ends and for every run that
  is still in its loop.
\<close>
theorem handle_not_used_after_close:
  "no_use_after_close (calls (fst (test_base K e)))
   \<and> no_use_after_close (calls (fst (base_test K e)))
   \<and> (\<forall>r. test_single_opencv K e = Some r \<longrightarrow> no_use_after_close (calls (fst r)))
   \<and> (\<forall>r. test_live_opencv K e = Some r \<longrightarrow> no_use_after_close (calls (fst r)))
   \<and> no_use_after_close (calls (single_prefix K e m))
   \<and> no_use_after_close (calls (live_prefix K e m))"
  by (simp add: test_base_no_use base_test_no_use test_single_opencv_no_use
      test_live_opencv_no_use prefix_no_use)

theorem handle_not_used_after_close_witness:
  "CloseQHYCCD \<in> set (calls (fst (test_base K0 e_ok)))
   \<and> no_use_after_close (calls (fst (test_base K0 e_ok)))
   \<and> test_single_opencv K0 e_ok \<noteq> None
   \<and> no_use_after_close (calls (fst (the (test_single_opencv K0 e_ok))))
   \<and> test_live_opencv K0 e_none \<noteq> None
   \<and> no_use_after_close (calls (fst (the (test_live_opencv K0 e_none))))"
proof -
  have closed: "CloseQHYCCD \<in> set (calls (fst (test_base K0 e_ok)))"
    by (simp add: test_base_def Let_def memset_faults_def e_ok_def K0_def)
  obtain r where single: "test_single_opencv K0 e_ok = Some r"
    using test_single_opencv_e_ok by (cases "test_single_opencv K0 e_ok") auto
  obtain r' where live: "test_live_opencv K0 e_none = Some r'"
    using test_live_opencv_e_none by (cases "test_live_opencv K0 e_none") auto
  from handle_not_used_after_close[of K0 e_ok 0] single
  have "no_use_after_close (calls (fst (test_base K0 e_ok)))"
    and "no_use_after_close (calls (fst r))" by blast+
  moreover from handle_not_used_after_close[of K0 e_none 0] live
  have "no_use_after_close (calls (fst r'))" by blast
  ultimately show ?thesis using closed single live by simp
qed

subsection \<open>The order of the calls\<close>

text \<open>
  Claim C3 as stated fails: when \<open>SetQHYCCDResolution\<close> fails, \<open>test_base\<close>
  has opened the camera and returns 1 with neither \<open>CloseQHYCCD\<close> nor
  \<open>ReleaseQHYCCDResource\<close>; and its first SDK call is \<open>GetQHYCCDSDKVersion\<close>,
  not \<open>InitQHYCCDResource\<close>.
\<close>
theorem teardown_skipped_counterexample:
  "snd (test_base K0 e_res_fail) = Exit 1
   \<and> hd (calls (fst (test_base K0 e_res_fail))) = GetQHYCCDSDKVersion
   \<and> OpenQHYCCD \<in> set (calls (fst (test_base K0 e_res_fail)))
   \<and> CloseQHYCCD \<notin> set (calls (fst (test_base K0 e_res_fail)))
   \<and> ReleaseQHYCCDResource \<notin> set (calls (fst (test_base K0 e_res_fail)))
   \<and> \<not> ends_with_teardown (fst (test_base K0 e_res_fail))"
  by (simp add: test_base_e_res_fail ends_with_teardown_def)

text \<open>
  Claim C3, amended. In every program the SDK calls of the phases resource
  initialization, device discovery, device open, configuration, loop and teardown
  are made in that order, and no SDK call follows \<open>ReleaseQHYCCDResource\<close>; this
  holds for every run that ends and for every run still in its loop. Every run
  that returns 0 ends with \<open>CloseQHYCCD\<close> and then \<open>ReleaseQHYCCDResource\<close>.
  \<open>GetQHYCCDSDKVersion\<close> and \<open>EnableQHYCCDMessage\<close> are outside the phases.
\<close>

theorem calls_in_phase_order:
  "runs_in_order (test_base K e) \<and> runs_in_order (base_test K e)
   \<and> (\<forall>r. test_single_opencv K e = Some r \<longrightarrow> runs_in_order r)
   \<and> (\<forall>r. test_live_opencv K e = Some r \<longrightarrow> runs_in_order r)
   \<and> in_phase_order (single_prefix K e m) \<and> none_after_release (calls (single_prefix K e m))
   \<and> in_phase_order (live_prefix K e m) \<and> none_after_release (calls (live_prefix K e m))"
proof (intro conjI allI impI)
  show "runs_in_order (test_base K e)" by (rule test_base_in_order)
  show "runs_in_order (base_test K e)" by (rule base_test_in_order)
  show "in_phase_order (single_prefix K e m)" "none_after_release (calls (single_prefix K e m))"
    "in_phase_order (live_prefix K e m)" "none_after_release (calls (live_prefix K e m))"
    using prefixes_in_order[of K e m] by simp_all
next
  fix r assume "test_single_opencv K e = Some r"
  then show "runs_in_order r" by (rule test_single_opencv_in_order)
next
  fix r assume "test_live_opencv K e = Some r"
  from test_live_opencv_in_order[OF this] show "runs_in_order r"
    by (simp add: runs_in_order_def)
qed

theorem calls_in_phase_order_witness:
  "snd (test_base K0 e_ok) = Exit 0 \<and> ends_with_teardown (fst (test_base K0 e_ok))
   \<and> in_phase_order (fst (test_base K0 e_ok))
   \<and> snd (base_test K0 e_ok) = Exit 0 \<and> ends_with_teardown (fst (base_test K0 e_ok))
   \<and> map_option snd (test_single_opencv K0 e_ok) = Some (Exit 0)
   \<and> ends_with_teardown (fst (the (test_single_opencv K0 e_ok)))
   \<and> map_option snd (test_live_opencv K0 e_none) = Some (Exit 1)
   \<and> in_phase_order (fst (the (test_live_opencv K0 e_none)))"
proof -
  note ok = calls_in_phase_order[of K0 e_ok 0]
  obtain r where single: "test_single_opencv K0 e_ok = Some r" and st: "snd r = Exit 0"
    using test_single_opencv_e_ok by (cases "test_single_opencv K0 e_ok") auto
  obtain r' where live: "test_live_opencv K0 e_none = Some r'"
    using test_live_opencv_e_none by (cases "test_live_opencv K0 e_none") auto
  from ok test_base_e_ok
  have "ends_with_teardown (fst (test_base K0 e_ok))" "in_phase_order (fst (test_base K0 e_ok))"
    by (simp_all add: runs_in_order_def)
  moreover from ok base_test_e_ok have "ends_with_teardown (fst (base_test K0 e_ok))"
    by (simp add: runs_in_order_def)
  moreover from ok single st have "ends_with_teardown (fst r)"
    by (simp add: runs_in_order_def)
  moreover from calls_in_phase_order[of K0 e_none 0] live have "in_phase_order (fst r')"
    by (simp add: runs_in_order_def)
  ultimately show ?thesis
    using test_base_e_ok base_test_e_ok test_single_opencv_e_ok test_live_opencv_e_none
      single live by simp
qed

subsection \<open>The frame buffer\<close>

text \<open>
  Claim C4 as stated fails: \<open>test_base\<close> allocates nothing when no camera is
  found, and when \<open>GetQHYCCDMemLength\<close> answers 0 it allocates a buffer of size 0
  and returns 0.
\<close>
theorem allocation_counterexample:
  "mallocs (fst (test_base K0 e_none)) = []
   \<and> \<not> 0 < sint (mem_length e_len0) \<and> mallocs (fst (test_base K0 e_len0)) = [0]
   \<and> snd (test_base K0 e_len0) = Exit 0"
  by (simp add: test_base_def Let_def memset_faults_def alloc_buffer_def e_none_def e_len0_def e_ok_def K0_def)

text \<open>
  Claim C4, amended. In every program a run allocates the frame buffer at most once,
  and a run that returns 0 has allocated it; the size passed to \<open>malloc\<close> is the
  \<open>int\<close> that \<open>GetQHYCCDMemLength\<close> returned in this run, converted to
  \<open>size_t\<close>, which is the returned value whenever that is not negative. In
  \<open>base_test\<close> the buffer is allocated only when the value is positive; otherwise
  the run allocates nothing and ends with status 1.
\<close>

theorem buffer_allocated_once:
  "allocates_once e (test_base K e) \<and> allocates_once e (base_test K e)
   \<and> (\<forall>r. test_single_opencv K e = Some r \<longrightarrow> allocates_once e r)
   \<and> (\<forall>r. test_live_opencv K e = Some r \<longrightarrow> allocates_once e r)
   \<and> (mallocs (single_prefix K e m) = [] \<or> mallocs (single_prefix K e m) = [scast (mem_length e)])
   \<and> (mallocs (live_prefix K e m) = [] \<or> mallocs (live_prefix K e m) = [scast (mem_length e)])
   \<and> allocation_guarded e (base_test K e)
   \<and> (0 \<le> sint (mem_length e) \<longrightarrow> uint (scast (mem_length e) :: u64) = uint (mem_length e))"
proof (intro conjI allI impI)
  show "allocates_once e (test_base K e)" by (rule test_base_allocates)
  show "allocates_once e (base_test K e)" by (rule base_test_allocates)
  show "mallocs (single_prefix K e m) = [] \<or> mallocs (single_prefix K e m) = [scast (mem_length e)]"
    by (rule prefix_mallocs)
  show "mallocs (live_prefix K e m) = [] \<or> mallocs (live_prefix K e m) = [scast (mem_length e)]"
    by (rule prefix_mallocs)
  show "allocation_guarded e (base_test K e)" by (rule base_test_guarded)
next
  fix r assume "test_single_opencv K e = Some r"
  then show "allocates_once e r" by (rule test_single_opencv_allocates)
next
  fix r assume "test_live_opencv K e = Some r"
  then show "allocates_once e r" by (rule test_live_opencv_allocates)
next
  assume "0 \<le> sint (mem_length e)"
  then show "uint (scast (mem_length e) :: u64) = uint (mem_length e)"
    by (rule size_t_of_length)
qed

theorem buffer_allocated_once_witness:
  "snd (test_base K0 e_ok) = Exit 0 \<and> mallocs (fst (test_base K0 e_ok)) = [307200]
   \<and> snd (base_test K0 e_ok) = Exit 0 \<and> mallocs (fst (base_test K0 e_ok)) = [307200]
   \<and> map_option snd (test_single_opencv K0 e_ok) = Some (Exit 0)
   \<and> mallocs (fst (the (test_single_opencv K0 e_ok))) = [307200]
   \<and> map_option snd (test_live_opencv K0 e_none) = Some (Exit 1)
   \<and> mallocs (fst (the (test_live_opencv K0 e_none))) = []
   \<and> \<not> 0 < sint (mem_length e_len0)
   \<and> mallocs (fst (base_test K0 e_len0)) = [] \<and> snd (base_test K0 e_len0) = Exit 1
   \<and> 0 \<le> sint (mem_length e_ok) \<and> uint (scast (mem_length e_ok) :: u64) = 307200"
proof -
  note ok = buffer_allocated_once[of e_ok K0 0]
  have len: "mem_length e_ok = 307200" "(scast (307200 :: u32) :: u64) = 307200"
    "sint (307200 :: u32) = 307200"
    by (simp_all add: e_ok_def)
  obtain r where single: "test_single_opencv K0 e_ok = Some r" and st: "snd r = Exit 0"
    using test_single_opencv_e_ok by (cases "test_single_opencv K0 e_ok") auto
  obtain r' where live: "test_live_opencv K0 e_none = Some r'" and st': "snd r' = Exit 1"
    using test_live_opencv_e_none by (cases "test_live_opencv K0 e_none") auto
  from ok test_base_e_ok have "mallocs (fst (test_base K0 e_ok)) = [307200]"
    by (auto simp add: allocates_once_def len)
  moreover from ok base_test_e_ok have "mallocs (fst (base_test K0 e_ok)) = [307200]"
    by (auto simp add: allocates_once_def len)
  moreover from ok single st have "mallocs (fst r) = [307200]"
    by (auto simp add: allocates_once_def len)
  moreover have "mallocs (fst r') = []"
    using live by (auto simp add: test_live_opencv_def opencv_init_def e_none_def e_ok_def K0_def)
  moreover have "\<not> 0 < sint (mem_length e_len0)" by (simp add: e_len0_def)
  moreover from buffer_allocated_once[of e_len0 K0 0] this
  have "mallocs (fst (base_test K0 e_len0)) = [] \<and> snd (base_test K0 e_len0) = Exit 1"
    by (simp add: allocation_guarded_def)
  moreover from ok have "uint (scast (mem_length e_ok) :: u64) = 307200"
    by (simp add: len)
  ultimately show ?thesis
    using test_base_e_ok base_test_e_ok test_single_opencv_e_ok test_live_opencv_e_none
      single live len by simp
qed

subsection \<open>Return codes\<close>





subsection \<open>Aborting a run\<close>




end
